theory Spec2Isabelle
  imports Main
begin

section \<open>Python values and exceptions\<close>

text \<open>
  The values the Jira client hands back are decoded JSON: \<open>None\<close>, booleans, integers,
  strings, lists and dictionaries with string keys. A dictionary is an association list in
  insertion order; lookup takes the entry of a key (a Python dict holds each key once).
  A string is a list of characters, each read as one code point below 256.
\<close>

datatype pyval =
    PNone
  | PBool bool
  | PInt int
  | PStr string
  | PList "pyval list"
  | PDict "(string \<times> pyval) list"

text \<open>
  An exception object that \<open>except Exception\<close> catches: its class name and the text
  \<open>str(e)\<close> gives.
\<close>

datatype exn = PyExc (exc_class: string) (exc_str: string)

text \<open>Truthiness, as \<open>if not x\<close> and \<open>all(...)\<close> read a value.\<close>

fun truthy :: "pyval \<Rightarrow> bool" where
  "truthy PNone = False"
| "truthy (PBool b) = b"
| "truthy (PInt i) = (i \<noteq> 0)"
| "truthy (PStr s) = (s \<noteq> [])"
| "truthy (PList xs) = (xs \<noteq> [])"
| "truthy (PDict kvs) = (kvs \<noteq> [])"

text \<open>The name of a value's type, as error messages print it.\<close>

fun type_name :: "pyval \<Rightarrow> string" where
  "type_name PNone = ''NoneType''"
| "type_name (PBool b) = ''bool''"
| "type_name (PInt i) = ''int''"
| "type_name (PStr s) = ''str''"
| "type_name (PList xs) = ''list''"
| "type_name (PDict kvs) = ''dict''"

section \<open>The constructor\<close>

text \<open>
  \<open>os.getenv(name, default)\<close> over the process environment (after \<open>load_dotenv()\<close> has
  added the entries of the \<open>.env\<close> file).
\<close>

definition getenv :: "(string \<rightharpoonup> string) \<Rightarrow> string \<Rightarrow> string \<Rightarrow> string" where
  "getenv environ name dflt = (case environ name of None \<Rightarrow> dflt | Some v \<Rightarrow> v)"

text \<open>The arguments \<open>Jira(url=..., username=..., password=..., cloud=...)\<close> is built with.\<close>

record jira_client =
  url :: string
  username :: string
  password :: string
  cloud :: bool

record JiraFetcher =
  server :: string
  email :: string
  api_token :: string
  jira :: jira_client

definition JiraFetcher_init :: "(string \<rightharpoonup> string) \<Rightarrow> exn + JiraFetcher" where
  "JiraFetcher_init environ =
     (let srv = getenv environ ''JIRA_SITE'' '''';
          eml = getenv environ ''JIRA_EMAIL'' '''';
          tok = getenv environ ''JIRA_API_TOKEN'' ''''
      in if \<not> list_all (\<lambda>s. truthy (PStr s)) [srv, eml, tok]
         then Inl (PyExc ''ValueError'' ''Missing required Jira environment variables'')
         else Inr \<lparr>server = srv, email = eml, api_token = tok,
                   jira = \<lparr>url = srv, username = eml, password = tok, cloud = True\<rparr>\<rparr>)"

text \<open>A variable is unset or empty.\<close>

definition unset_or_empty :: "(string \<rightharpoonup> string) \<Rightarrow> string \<Rightarrow> bool" where
  "unset_or_empty environ name = (environ name = None \<or> environ name = Some [])"

section \<open>Strings\<close>

text \<open>
  The characters \<open>str.isspace\<close> accepts among the code points below 256; \<open>str.strip()\<close>
  removes them from both ends.
\<close>

definition whitespace :: "char list" where
  "whitespace = [CHR 0x09, CHR 0x0A, CHR 0x0B, CHR 0x0C, CHR 0x0D, CHR 0x1C, CHR 0x1D,
                 CHR 0x1E, CHR 0x1F, CHR 0x20, CHR 0x85, CHR 0xA0]"

definition is_space :: "char \<Rightarrow> bool" where
  "is_space c = (c \<in> set whitespace)"

definition strip :: "string \<Rightarrow> string" where
  "strip s = rev (dropWhile is_space (rev (dropWhile is_space s)))"

text \<open>\<open>s.rstrip(chars)\<close>.\<close>

definition rstrip_chars :: "string \<Rightarrow> string \<Rightarrow> string" where
  "rstrip_chars cs s = rev (dropWhile (\<lambda>c. c \<in> set cs) (rev s))"

text \<open>
  \<open>s.replace(old, new)\<close>: the occurrences of \<open>old\<close> from the left, none overlapping
  the one before; an empty \<open>old\<close> matches before every character and at the end.
\<close>

function str_replace :: "string \<Rightarrow> string \<Rightarrow> string \<Rightarrow> string" where
  "str_replace old new s =
     (if old = [] then concat (map (\<lambda>c. new @ [c]) s) @ new
      else if take (length old) s = old then new @ str_replace old new (drop (length old) s)
      else (case s of [] \<Rightarrow> [] | x # xs \<Rightarrow> x # str_replace old new xs))"
  by pat_completeness auto
termination
proof (relation "measure (\<lambda>(old, new, s). length s)")
  fix old new s :: string
  assume "old \<noteq> []" "take (length old) s = old"
  then have "s \<noteq> []" by auto
  with \<open>old \<noteq> []\<close>
  show "((old, new, drop (length old) s), (old, new, s)) \<in> measure (\<lambda>(old, new, s). length s)"
    by (cases s) auto
qed auto

declare str_replace.simps [simp del]

section \<open>Regular expressions\<close>

text \<open>
  The part of Python's \<open>re\<close> syntax the patterns of \<open>_clean_text\<close> use: a pattern is a
  sequence of pieces, each a character class under a quantifier, and a piece may be a
  capturing group. The classes are a literal character, a negated one-character set
  \<open>[^c]\<close> and the dot, which matches a newline only under \<open>re.DOTALL\<close>.
\<close>

datatype cclass = Ch char | NotCh char | Dot

fun cmatch :: "bool \<Rightarrow> cclass \<Rightarrow> char \<Rightarrow> bool" where
  "cmatch dotall (Ch c) x = (x = c)"
| "cmatch dotall (NotCh c) x = (x \<noteq> c)"
| "cmatch dotall Dot x = (dotall \<or> x \<noteq> CHR 0x0A)"

text \<open>Exactly once, \<open>?\<close> (greedy), \<open>*?\<close> (lazy) and \<open>+\<close> (greedy).\<close>

datatype quant = QOnce | QOpt | QLazyStar | QPlus

text \<open>\<open>Piece g c q\<close>: class \<open>c\<close> under \<open>q\<close>, captured as a group when \<open>g\<close> holds.\<close>

datatype piece = Piece bool cclass quant

text \<open>
  A match is the texts of the groups, in order, and the input left after the match.
  \<open>keep\<close> records the text of a piece that is complete, \<open>grow\<close> puts one more
  character in front of the text of the piece being repeated.
\<close>

fun keep :: "bool \<Rightarrow> string \<Rightarrow> (string list \<times> string) option \<Rightarrow> (string list \<times> string) option" where
  "keep g t None = None"
| "keep g t (Some (gs, r)) = Some (if g then t # gs else gs, r)"

fun grow :: "bool \<Rightarrow> char \<Rightarrow> (string list \<times> string) option \<Rightarrow> (string list \<times> string) option" where
  "grow g x None = None"
| "grow g x (Some (gs, r)) =
     Some (if g then (case gs of [] \<Rightarrow> [[x]] | t # ts \<Rightarrow> (x # t) # ts) else gs, r)"

text \<open>
  Matching at the start of the input, by backtracking in the order of the \<open>re\<close> engine:
  a greedy quantifier tries the longer repetition first, a lazy one the shorter, and the
  first alternative under which the rest of the pattern matches is the match.
\<close>

fun rmatch :: "bool \<Rightarrow> piece list \<Rightarrow> string \<Rightarrow> (string list \<times> string) option" where
  "rmatch d [] s = Some ([], s)"
| "rmatch d (Piece g c QOnce # ps) s =
     (case s of [] \<Rightarrow> None
      | x # xs \<Rightarrow> if cmatch d c x then keep g [x] (rmatch d ps xs) else None)"
| "rmatch d (Piece g c QOpt # ps) s =
     (case (case s of [] \<Rightarrow> None
            | x # xs \<Rightarrow> if cmatch d c x then keep g [x] (rmatch d ps xs) else None) of
        Some m \<Rightarrow> Some m
      | None \<Rightarrow> keep g [] (rmatch d ps s))"
| "rmatch d (Piece g c QLazyStar # ps) s =
     (case keep g [] (rmatch d ps s) of
        Some m \<Rightarrow> Some m
      | None \<Rightarrow>
          (case s of [] \<Rightarrow> None
           | x # xs \<Rightarrow> if cmatch d c x
                       then grow g x (rmatch d (Piece g c QLazyStar # ps) xs) else None))"
| "rmatch d (Piece g c QPlus # ps) s =
     (case s of [] \<Rightarrow> None
      | x # xs \<Rightarrow>
          if cmatch d c x
          then (case grow g x (rmatch d (Piece g c QPlus # ps) xs) of
                  Some m \<Rightarrow> Some m
                | None \<Rightarrow> keep g [x] (rmatch d ps xs))
          else None)"

text \<open>A replacement template: literal text and group references \<open>\<^verbatim>\<open>\1\<close>\<close>.\<close>

datatype titem = TLit string | TGroup nat

fun expand_template :: "titem list \<Rightarrow> string list \<Rightarrow> string" where
  "expand_template [] gs = []"
| "expand_template (TLit t # ts) gs = t @ expand_template ts gs"
| "expand_template (TGroup n # ts) gs =
     (if 1 \<le> n \<and> n \<le> length gs then gs ! (n - 1) else []) @ expand_template ts gs"

text \<open>
  \<open>re.sub(pattern, repl, s)\<close>: the leftmost match is replaced and the search goes on
  after it; where the pattern does not match, the character is copied. After an empty
  match the replacement is written and the search moves one character on (none of the
  patterns below matches the empty string).
\<close>

function re_sub :: "bool \<Rightarrow> piece list \<Rightarrow> titem list \<Rightarrow> string \<Rightarrow> string" where
  "re_sub d ps repl s =
     (case rmatch d ps s of
        Some (gs, r) \<Rightarrow>
          if length r < length s then expand_template repl gs @ re_sub d ps repl r
          else expand_template repl gs @ (case s of [] \<Rightarrow> [] | x # xs \<Rightarrow> x # re_sub d ps repl xs)
      | None \<Rightarrow> (case s of [] \<Rightarrow> [] | x # xs \<Rightarrow> x # re_sub d ps repl xs))"
  by pat_completeness auto
termination
  by (relation "measure (\<lambda>(d, ps, repl, s). length s)") auto

declare re_sub.simps [simp del]

definition lit :: "char \<Rightarrow> piece" where
  "lit c = Piece False (Ch c) QOnce"

text \<open>The five patterns, piece by piece.\<close>

definition color_open_re :: "piece list" where
  "color_open_re = map lit ''{color:'' @ [Piece False (NotCh CHR ''}'') QPlus, lit CHR ''}'']"

definition code_block_re :: "piece list" where
  "code_block_re = map lit ''{{'' @ [Piece False Dot QLazyStar] @ map lit ''}}''"

definition image_re :: "piece list" where
  "image_re = [lit CHR ''!'', Piece False (Ch CHR ''['') QOpt,
               Piece False (NotCh CHR '']'') QLazyStar, lit CHR ''!'']"

definition link_re :: "piece list" where
  "link_re = [lit CHR ''['', Piece True Dot QLazyStar, lit CHR ''|'',
              Piece False (NotCh CHR '']'') QPlus, lit CHR '']'']"

definition newlines_re :: "piece list" where
  "newlines_re = [Piece False (Ch CHR 0x0A) QPlus]"

definition clean_str :: "string \<Rightarrow> string" where
  "clean_str s =
     (let t1 = re_sub False color_open_re [] s;
          t2 = str_replace ''{color}'' '''' t1;
          t3 = re_sub True code_block_re [] t2;
          t4 = re_sub False image_re [] t3;
          t5 = re_sub False link_re [TGroup 1] t4
      in strip (re_sub False newlines_re [TLit [CHR 0x0A]] t5))"

text \<open>
  \<open>_clean_text\<close>: a falsy argument gives the empty string; on any other argument that is
  not a string the first \<open>re.sub\<close> raises.
\<close>

definition clean_text :: "pyval \<Rightarrow> exn + string" where
  "clean_text text =
     (if \<not> truthy text then Inr ''''
      else (case text of
              PStr s \<Rightarrow> Inr (clean_str s)
            | _ \<Rightarrow> Inl (PyExc ''TypeError''
                      (''expected string or bytes-like object, got '' @ [CHR 0x27]
                       @ type_name text @ [CHR 0x27]))))"

section \<open>The cleanup, marker by marker\<close>

text \<open>
  The same cleanup written without the regular-expression engine. A recogniser tells
  whether a marker starts at the head of the text, and gives what replaces it and the
  text after it; \<open>replace_every\<close> applies a recogniser from left to right.
\<close>

function replace_every :: "(string \<Rightarrow> (string \<times> string) option) \<Rightarrow> string \<Rightarrow> string" where
  "replace_every at s =
     (case at s of
        Some (t, r) \<Rightarrow>
          if length r < length s then t @ replace_every at r
          else (case s of [] \<Rightarrow> [] | x # xs \<Rightarrow> x # replace_every at xs)
      | None \<Rightarrow> (case s of [] \<Rightarrow> [] | x # xs \<Rightarrow> x # replace_every at xs))"
  by pat_completeness auto
termination
  by (relation "measure (\<lambda>(at, s). length s)") auto

declare replace_every.simps [simp del]

text \<open>The text after the prefix \<open>w\<close>, and the text after the first occurrence of \<open>w\<close>.\<close>

definition after_prefix :: "string \<Rightarrow> string \<Rightarrow> string option" where
  "after_prefix w s = (if take (length w) s = w then Some (drop (length w) s) else None)"

fun after_first :: "string \<Rightarrow> string \<Rightarrow> string option" where
  "after_first w [] = after_prefix w []"
| "after_first w (x # xs) =
     (case after_prefix w (x # xs) of Some r \<Rightarrow> Some r | None \<Rightarrow> after_first w xs)"

text \<open>
  \<open>{color:X}\<close> with \<open>X\<close> a non-empty text free of \<open>}\<close>; \<open>{color}\<close>;
  \<open>{{X}}\<close> with \<open>X\<close> the shortest text, line breaks included.
\<close>

definition color_open_at :: "string \<Rightarrow> (string \<times> string) option" where
  "color_open_at s =
     (case after_prefix ''{color:'' s of
        None \<Rightarrow> None
      | Some t \<Rightarrow>
          if takeWhile (\<lambda>c. c \<noteq> CHR ''}'') t = [] then None
          else (case dropWhile (\<lambda>c. c \<noteq> CHR ''}'') t of [] \<Rightarrow> None | y # r \<Rightarrow> Some ([], r)))"

definition color_close_at :: "string \<Rightarrow> (string \<times> string) option" where
  "color_close_at s = map_option (Pair []) (after_prefix ''{color}'' s)"

definition code_block_at :: "string \<Rightarrow> (string \<times> string) option" where
  "code_block_at s =
     (case after_prefix ''{{'' s of
        None \<Rightarrow> None
      | Some t \<Rightarrow> map_option (Pair []) (after_first ''}}'' t))"

text \<open>\<open>!X!\<close> with \<open>X\<close> free of \<open>!\<close> and of \<open>]\<close>.\<close>

definition image_at :: "string \<Rightarrow> (string \<times> string) option" where
  "image_at s =
     (case s of [] \<Rightarrow> None
      | x # t \<Rightarrow>
          if x = CHR ''!''
          then (case dropWhile (\<lambda>c. c \<noteq> CHR ''!'' \<and> c \<noteq> CHR '']'') t of
                  [] \<Rightarrow> None
                | y # r \<Rightarrow> if y = CHR ''!'' then Some ([], r) else None)
          else None)"

text \<open>
  \<open>[display|target]\<close>: the target is a non-empty text free of \<open>]\<close>, closed by \<open>]\<close>;
  the display is the shortest text free of line breaks after which \<open>|\<close> and such a
  target stand. The link is replaced by its display.
\<close>

definition link_target :: "string \<Rightarrow> string option" where
  "link_target u =
     (if takeWhile (\<lambda>c. c \<noteq> CHR '']'') u = [] then None
      else (case dropWhile (\<lambda>c. c \<noteq> CHR '']'') u of [] \<Rightarrow> None | y # r \<Rightarrow> Some r))"

fun link_scan :: "string \<Rightarrow> (string \<times> string) option" where
  "link_scan [] = None"
| "link_scan (x # xs) =
     (case (if x = CHR ''|'' then link_target xs else None) of
        Some r \<Rightarrow> Some ([], r)
      | None \<Rightarrow>
          if x \<noteq> CHR 0x0A then map_option (\<lambda>(d, r). (x # d, r)) (link_scan xs) else None)"

definition link_at :: "string \<Rightarrow> (string \<times> string) option" where
  "link_at s = (case s of [] \<Rightarrow> None | x # t \<Rightarrow> if x = CHR ''['' then link_scan t else None)"

text \<open>A run of newlines, replaced by one newline.\<close>

definition newline_run_at :: "string \<Rightarrow> (string \<times> string) option" where
  "newline_run_at s =
     (case s of [] \<Rightarrow> None
      | x # t \<Rightarrow> if x = CHR 0x0A then Some ([CHR 0x0A], dropWhile (\<lambda>c. c = CHR 0x0A) t)
                 else None)"

text \<open>The same on the whole text: of a run of newlines only the last is kept.\<close>

fun collapse_newlines :: "string \<Rightarrow> string" where
  "collapse_newlines [] = []"
| "collapse_newlines [x] = [x]"
| "collapse_newlines (x # y # xs) =
     (if x = CHR 0x0A \<and> y = CHR 0x0A then collapse_newlines (y # xs)
      else x # collapse_newlines (y # xs))"

definition clean_steps :: "string \<Rightarrow> string" where
  "clean_steps s =
     strip (collapse_newlines (replace_every link_at (replace_every image_at
       (replace_every code_block_at (replace_every color_close_at
         (replace_every color_open_at s))))))"


section \<open>The cleanup with every marker read as any text between its delimiters\<close>

text \<open>
  The forms \<open>{color:...}\<close>, \<open>!...!\<close> and \<open>[display|target]\<close> with the dots read as
  the shortest text up to the closing delimiter, whatever it holds.
\<close>

fun split_first :: "string \<Rightarrow> string \<Rightarrow> (string \<times> string) option" where
  "split_first w [] = map_option (Pair []) (after_prefix w [])"
| "split_first w (x # xs) =
     (case after_prefix w (x # xs) of
        Some r \<Rightarrow> Some ([], r)
      | None \<Rightarrow> map_option (\<lambda>(b, r). (x # b, r)) (split_first w xs))"

definition claimed_color_open_at :: "string \<Rightarrow> (string \<times> string) option" where
  "claimed_color_open_at s =
     (case after_prefix ''{color:'' s of
        None \<Rightarrow> None
      | Some t \<Rightarrow> map_option (Pair []) (after_first ''}'' t))"

definition claimed_image_at :: "string \<Rightarrow> (string \<times> string) option" where
  "claimed_image_at s =
     (case after_prefix ''!'' s of
        None \<Rightarrow> None
      | Some t \<Rightarrow> map_option (Pair []) (after_first ''!'' t))"

definition claimed_link_at :: "string \<Rightarrow> (string \<times> string) option" where
  "claimed_link_at s =
     (case after_prefix ''['' s of
        None \<Rightarrow> None
      | Some t \<Rightarrow>
          (case split_first ''|'' t of
             None \<Rightarrow> None
           | Some (d, u) \<Rightarrow> map_option (Pair d) (after_first '']'' u)))"

definition clean_claimed :: "string \<Rightarrow> string" where
  "clean_claimed s =
     strip (collapse_newlines (replace_every claimed_link_at (replace_every claimed_image_at
       (replace_every code_block_at (replace_every color_close_at
         (replace_every claimed_color_open_at s))))))"


section \<open>Texts without markup, texts without double newlines\<close>

definition markup_free :: "string \<Rightarrow> bool" where
  "markup_free s = (CHR ''{'' \<notin> set s \<and> CHR ''!'' \<notin> set s \<and> CHR ''['' \<notin> set s)"

fun nn_free :: "string \<Rightarrow> bool" where
  "nn_free [] = True"
| "nn_free [x] = True"
| "nn_free (x # y # xs) = (\<not> (x = CHR 0x0A \<and> y = CHR 0x0A) \<and> nn_free (y # xs))"


section \<open>Values as text\<close>

text \<open>
  \<open>str(v)\<close> as an f-string writes a value: a string as it is, every other value as
  \<open>repr\<close> prints it. \<open>repr\<close> of a string takes single quotes, or double quotes when
  the string holds a single quote and no double one, and escapes the backslash, the
  quote, newline, carriage return, tab and the characters that are not printable.
\<close>

fun nat_str :: "nat \<Rightarrow> string" where
  "nat_str n = (if n < 10 then [''0123456789'' ! n]
                else nat_str (n div 10) @ [''0123456789'' ! (n mod 10)])"

declare nat_str.simps [simp del]

definition int_str :: "int \<Rightarrow> string" where
  "int_str i = (if i < 0 then ''-'' @ nat_str (nat (- i)) else nat_str (nat i))"

definition printable :: "char \<Rightarrow> bool" where
  "printable c = (let n = (of_char c :: nat)
                  in (32 \<le> n \<and> n < 127) \<or> (161 \<le> n \<and> n \<noteq> 173))"

definition hex2 :: "nat \<Rightarrow> string" where
  "hex2 n = [''0123456789abcdef'' ! (n div 16), ''0123456789abcdef'' ! (n mod 16)]"

definition repr_char :: "char \<Rightarrow> char \<Rightarrow> string" where
  "repr_char q c =
     (if c = CHR 0x5C then [CHR 0x5C, CHR 0x5C]
      else if c = q then [CHR 0x5C, q]
      else if c = CHR 0x0A then [CHR 0x5C, CHR ''n'']
      else if c = CHR 0x0D then [CHR 0x5C, CHR ''r'']
      else if c = CHR 0x09 then [CHR 0x5C, CHR ''t'']
      else if printable c then [c]
      else [CHR 0x5C, CHR ''x''] @ hex2 (of_char c))"

definition repr_str :: "string \<Rightarrow> string" where
  "repr_str s =
     (let q = (if CHR 0x27 \<in> set s \<and> CHR 0x22 \<notin> set s then CHR 0x22 else CHR 0x27)
      in q # concat (map (repr_char q) s) @ [q])"

fun join :: "string \<Rightarrow> string list \<Rightarrow> string" where
  "join sep [] = []"
| "join sep [x] = x"
| "join sep (x # y # ys) = x @ sep @ join sep (y # ys)"

fun py_repr :: "pyval \<Rightarrow> string" where
  "py_repr PNone = ''None''"
| "py_repr (PBool b) = (if b then ''True'' else ''False'')"
| "py_repr (PInt i) = int_str i"
| "py_repr (PStr s) = repr_str s"
| "py_repr (PList xs) = ''['' @ join '', '' (map py_repr xs) @ '']''"
| "py_repr (PDict kvs) =
     ''{'' @ join '', '' (map (\<lambda>kv. repr_str (fst kv) @ '': '' @ py_repr (snd kv)) kvs) @ ''}''"

definition py_str :: "pyval \<Rightarrow> string" where
  "py_str v = (case v of PStr s \<Rightarrow> s | _ \<Rightarrow> py_repr v)"

section \<open>Operations on values\<close>

text \<open>
  Method calls and operators on a value of any type: \<open>v.get(k, default)\<close>,
  \<open>v.replace(old, new)\<close>, iteration and \<open>k in v\<close>. Where the type has no such
  method or is not iterable, the AttributeError or TypeError of the interpreter is the
  result. \<open>and_then\<close> runs the next statement on a value and passes an exception on.
\<close>

definition quoted :: "string \<Rightarrow> string" where
  "quoted s = [CHR 0x27] @ s @ [CHR 0x27]"

definition attribute_error :: "pyval \<Rightarrow> string \<Rightarrow> exn" where
  "attribute_error v a =
     PyExc ''AttributeError''
       (quoted (type_name v) @ '' object has no attribute '' @ quoted a)"

fun is_dict :: "pyval \<Rightarrow> bool" where
  "is_dict (PDict kvs) = True"
| "is_dict v = False"

definition dict_get :: "(string \<times> pyval) list \<Rightarrow> string \<Rightarrow> pyval \<Rightarrow> pyval" where
  "dict_get kvs k dflt = (case map_of kvs k of None \<Rightarrow> dflt | Some v \<Rightarrow> v)"

fun py_get :: "pyval \<Rightarrow> string \<Rightarrow> pyval \<Rightarrow> exn + pyval" where
  "py_get (PDict kvs) k dflt = Inr (dict_get kvs k dflt)"
| "py_get v k dflt = Inl (attribute_error v ''get'')"

fun py_replace :: "pyval \<Rightarrow> string \<Rightarrow> string \<Rightarrow> exn + string" where
  "py_replace (PStr s) old new = Inr (str_replace old new s)"
| "py_replace v old new = Inl (attribute_error v ''replace'')"

fun py_iter :: "pyval \<Rightarrow> exn + pyval list" where
  "py_iter (PList xs) = Inr xs"
| "py_iter (PStr s) = Inr (map (\<lambda>c. PStr [c]) s)"
| "py_iter (PDict kvs) = Inr (map (\<lambda>kv. PStr (fst kv)) kvs)"
| "py_iter v = Inl (PyExc ''TypeError'' (quoted (type_name v) @ '' object is not iterable''))"

fun contains_str :: "string \<Rightarrow> string \<Rightarrow> bool" where
  "contains_str w [] = (w = [])"
| "contains_str w (x # xs) = (take (length w) (x # xs) = w \<or> contains_str w xs)"

fun py_contains :: "string \<Rightarrow> pyval \<Rightarrow> exn + bool" where
  "py_contains k (PDict kvs) = Inr (k \<in> fst ` set kvs)"
| "py_contains k (PList xs) = Inr (PStr k \<in> set xs)"
| "py_contains k (PStr s) = Inr (contains_str k s)"
| "py_contains k v =
     Inl (PyExc ''TypeError'' (''argument of type '' @ quoted (type_name v) @ '' is not iterable''))"

definition and_then :: "exn + 'a \<Rightarrow> ('a \<Rightarrow> exn + 'b) \<Rightarrow> exn + 'b" where
  "and_then m f = (case m of Inl e \<Rightarrow> Inl e | Inr x \<Rightarrow> f x)"

section \<open>The collaborators\<close>

text \<open>
  The Jira client and the date parser are libraries, so they are parameters. A call of the
  client returns a value or raises, and moves the world (the remote service, the network)
  from one state to the next; which client is called is told by the arguments it was
  built with. The parser \<open>datetime.fromisoformat\<close> returns a datetime or raises; of
  the datetime only the calendar date is kept, which is all \<open>strftime("%Y-%m-%d")\<close>
  reads. \<open>%m\<close> and \<open>%d\<close> are two digits, \<open>%Y\<close> is the year as the C library prints
  it, without padding (four digits from the year 1000 on).
  Log messages are not part of the model.
\<close>

datatype call =
    IssueCall pyval pyval
  | JqlCall pyval pyval pyval pyval pyval
  | ProjectsCall

record date =
  year :: nat
  month :: nat
  day :: nat

record 'w externals =
  api :: "jira_client \<Rightarrow> call \<Rightarrow> 'w \<Rightarrow> (exn + pyval) \<times> 'w"
  fromisoformat :: "string \<Rightarrow> exn + date"

definition pad2 :: "nat \<Rightarrow> string" where
  "pad2 n = (if n < 10 then ''0'' @ nat_str n else nat_str n)"

definition strftime_ymd :: "date \<Rightarrow> string" where
  "strftime_ymd d = nat_str (year d) @ ''-'' @ pad2 (month d) @ ''-'' @ pad2 (day d)"

section \<open>The fetch operations\<close>

text \<open>
  Each operation is its \<open>try\<close> block, which ends in a result or in an exception, and
  the handler around it. \<open>issue_document\<close> is the part of \<open>get_issue\<close> after the
  client's call. The optional arguments are passed explicitly: \<open>expand\<close> is
  \<open>None\<close>, \<open>fields\<close> is \<open>"*all"\<close>, \<open>start\<close> is 0 and \<open>limit\<close> is 50 where the
  caller leaves them out. The variable \<open>fields\<close> of the source is written \<open>flds\<close>
  (records already have a function of that name). The statements at the end of the
  module, which build a fetcher and print the projects, are not modelled.
\<close>

definition epoch_default :: string where
  "epoch_default = ''1970-01-01T00:00:00.000+0000''"

definition formatted_date :: "'w externals \<Rightarrow> pyval \<Rightarrow> exn + string" where
  "formatted_date ext v =
     and_then (py_replace v ''Z'' ''+00:00'') (\<lambda>created.
     and_then (fromisoformat ext created) (\<lambda>d.
     Inr (strftime_ymd d)))"

definition process_comment :: "'w externals \<Rightarrow> pyval \<Rightarrow> exn + pyval" where
  "process_comment ext comment =
     and_then (py_get comment ''body'' (PStr '''')) (\<lambda>body.
     and_then (clean_text body) (\<lambda>processed_comment.
     and_then (py_get comment ''created'' (PStr epoch_default)) (\<lambda>created.
     and_then (formatted_date ext created) (\<lambda>created_date.
     and_then (py_get comment ''author'' (PDict [])) (\<lambda>a.
     and_then (py_get a ''displayName'' (PStr ''Unknown'')) (\<lambda>author.
     Inr (PDict [(''body'', PStr processed_comment), (''created'', PStr created_date),
                 (''author'', author)])))))))"

fun process_comments :: "'w externals \<Rightarrow> pyval list \<Rightarrow> exn + pyval list" where
  "process_comments ext [] = Inr []"
| "process_comments ext (comment # rest) =
     and_then (process_comment ext comment) (\<lambda>c.
     and_then (process_comments ext rest) (\<lambda>cs. Inr (c # cs)))"

definition error_dict :: "pyval \<Rightarrow> string \<Rightarrow> pyval" where
  "error_dict issue_key msg = PDict [(''key'', issue_key), (''error'', PStr msg)]"

definition nested_get :: "pyval \<Rightarrow> string \<Rightarrow> string \<Rightarrow> pyval \<Rightarrow> exn + pyval" where
  "nested_get flds k1 k2 dflt =
     and_then (py_get flds k1 (PDict [])) (\<lambda>d. py_get d k2 dflt)"

definition issue_document :: "'w externals \<Rightarrow> JiraFetcher \<Rightarrow> pyval \<Rightarrow> pyval \<Rightarrow> exn + pyval" where
  "issue_document ext self issue_key issue =
     (if \<not> truthy issue \<or> \<not> is_dict issue
      then Inr (error_dict issue_key ''Issue not found or missing data'')
      else
        and_then (py_get issue ''fields'' (PDict [])) (\<lambda>flds.
        if \<not> is_dict flds
        then Inr (error_dict issue_key ''Issue missing fields'')
        else
          and_then (py_get flds ''description'' (PStr '''')) (\<lambda>d.
          and_then (clean_text d) (\<lambda>description.
          and_then (py_get flds ''comment'' PNone) (\<lambda>comment.
          and_then (if is_dict comment
                    then and_then (py_get comment ''comments'' (PList [])) (\<lambda>cs.
                         and_then (py_iter cs) (process_comments ext))
                    else Inr []) (\<lambda>comments.
          and_then (py_get flds ''created'' (PStr epoch_default)) (\<lambda>created.
          and_then (formatted_date ext created) (\<lambda>formatted_created.
          and_then (py_get flds ''summary'' (PStr ''No Summary'')) (\<lambda>title.
          and_then (nested_get flds ''issuetype'' ''name'' (PStr ''Unknown'')) (\<lambda>type.
          and_then (nested_get flds ''status'' ''name'' (PStr ''Unknown'')) (\<lambda>status.
          and_then (nested_get flds ''priority'' ''name'' (PStr ''None'')) (\<lambda>priority.
          and_then (nested_get flds ''assignee'' ''displayName'' (PStr ''Unassigned''))
            (\<lambda>assignee.
          and_then (nested_get flds ''reporter'' ''displayName'' (PStr ''Unknown Reporter''))
            (\<lambda>reporter.
          Inr (PDict
            [(''key'', issue_key),
             (''title'', title),
             (''type'', type),
             (''status'', status),
             (''created'', PStr formatted_created),
             (''priority'', priority),
             (''description'', PStr description),
             (''assignee'', assignee),
             (''reporter'', reporter),
             (''comments'', PList comments),
             (''link'', PStr (rstrip_chars ''/'' (server self) @ ''/browse/''
                              @ py_str issue_key))])))))))))))))))"

definition get_issue_try ::
  "'w externals \<Rightarrow> JiraFetcher \<Rightarrow> pyval \<Rightarrow> pyval \<Rightarrow> 'w \<Rightarrow> (exn + pyval) \<times> 'w" where
  "get_issue_try ext self issue_key expand w =
     (case api ext (jira self) (IssueCall issue_key expand) w of
        (Inl e, w') \<Rightarrow> (Inl e, w')
      | (Inr issue, w') \<Rightarrow> (issue_document ext self issue_key issue, w'))"

definition get_issue ::
  "'w externals \<Rightarrow> JiraFetcher \<Rightarrow> pyval \<Rightarrow> pyval \<Rightarrow> 'w \<Rightarrow> pyval \<times> 'w" where
  "get_issue ext self issue_key expand w =
     (case get_issue_try ext self issue_key expand w of
        (Inl e, w') \<Rightarrow> (error_dict issue_key (exc_str e), w')
      | (Inr doc, w') \<Rightarrow> (doc, w'))"

definition has_key :: "pyval \<Rightarrow> string \<Rightarrow> bool" where
  "has_key v k = (case v of PDict kvs \<Rightarrow> k \<in> fst ` set kvs | _ \<Rightarrow> False)"

fun collect_documents ::
  "'w externals \<Rightarrow> JiraFetcher \<Rightarrow> pyval \<Rightarrow> pyval list \<Rightarrow> 'w \<Rightarrow> (exn + pyval list) \<times> 'w" where
  "collect_documents ext self expand [] w = (Inr [], w)"
| "collect_documents ext self expand (issue # rest) w =
     (case py_get issue ''key'' (PStr ''UNKNOWN'') of
        Inl e \<Rightarrow> (Inl e, w)
      | Inr k \<Rightarrow>
          (case get_issue ext self k expand w of
             (doc, w') \<Rightarrow>
               (case collect_documents ext self expand rest w' of
                  (Inl e, w'') \<Rightarrow> (Inl e, w'')
                | (Inr docs, w'') \<Rightarrow>
                    (Inr (if \<not> has_key doc ''error'' then doc # docs else docs), w''))))"

definition search_issues_try ::
  "'w externals \<Rightarrow> JiraFetcher \<Rightarrow> pyval \<Rightarrow> pyval \<Rightarrow> pyval \<Rightarrow> pyval \<Rightarrow> pyval \<Rightarrow> 'w
     \<Rightarrow> (exn + pyval list) \<times> 'w" where
  "search_issues_try ext self jql flds start limit expand w =
     (case api ext (jira self) (JqlCall jql flds start limit expand) w of
        (Inl e, w') \<Rightarrow> (Inl e, w')
      | (Inr results, w') \<Rightarrow>
          if \<not> truthy results then (Inr [], w')
          else (case py_contains ''issues'' results of
                  Inl e \<Rightarrow> (Inl e, w')
                | Inr present \<Rightarrow>
                    if \<not> present then (Inr [], w')
                    else (case and_then (py_get results ''issues'' (PList [])) py_iter of
                            Inl e \<Rightarrow> (Inl e, w')
                          | Inr issues \<Rightarrow> collect_documents ext self expand issues w')))"

definition search_issues ::
  "'w externals \<Rightarrow> JiraFetcher \<Rightarrow> pyval \<Rightarrow> pyval \<Rightarrow> pyval \<Rightarrow> pyval \<Rightarrow> pyval \<Rightarrow> 'w
     \<Rightarrow> pyval list \<times> 'w" where
  "search_issues ext self jql flds start limit expand w =
     (case search_issues_try ext self jql flds start limit expand w of
        (Inl e, w') \<Rightarrow> ([], w')
      | (Inr documents, w') \<Rightarrow> (documents, w'))"

definition get_project_issues ::
  "'w externals \<Rightarrow> JiraFetcher \<Rightarrow> pyval \<Rightarrow> pyval \<Rightarrow> pyval \<Rightarrow> 'w \<Rightarrow> pyval list \<times> 'w" where
  "get_project_issues ext self project_key start limit w =
     search_issues ext self
       (PStr (''project = '' @ py_str project_key @ '' ORDER BY created DESC''))
       (PStr ''*all'') start limit PNone w"

fun project_dicts :: "pyval list \<Rightarrow> exn + pyval list" where
  "project_dicts [] = Inr []"
| "project_dicts (project # rest) =
     and_then (py_get project ''key'' PNone) (\<lambda>k.
     and_then (py_get project ''name'' PNone) (\<lambda>n.
     and_then (project_dicts rest) (\<lambda>ps.
     Inr (PDict [(''key'', k), (''name'', n)] # ps))))"

definition get_all_projects_try ::
  "'w externals \<Rightarrow> JiraFetcher \<Rightarrow> 'w \<Rightarrow> (exn + pyval list) \<times> 'w" where
  "get_all_projects_try ext self w =
     (case api ext (jira self) ProjectsCall w of
        (Inl e, w') \<Rightarrow> (Inl e, w')
      | (Inr projects, w') \<Rightarrow>
          if \<not> truthy projects then (Inr [], w')
          else (and_then (py_iter projects) project_dicts, w'))"

definition get_all_projects ::
  "'w externals \<Rightarrow> JiraFetcher \<Rightarrow> 'w \<Rightarrow> pyval list \<times> 'w" where
  "get_all_projects ext self w =
     (case get_all_projects_try ext self w of
        (Inl e, w') \<Rightarrow> ([], w')
      | (Inr project_list, w') \<Rightarrow> (project_list, w'))"

text \<open>A client that also writes every call into a log, in front of its world.\<close>

definition logged :: "'w externals \<Rightarrow> (call list \<times> 'w) externals" where
  "logged ext =
     \<lparr>api = (\<lambda>cfg c lw. case api ext cfg c (snd lw) of (r, w') \<Rightarrow> (r, (fst lw @ [c], w'))),
      fromisoformat = fromisoformat ext\<rparr>"

text \<open>\<open>get_issue\<close> for each key of a list, in order.\<close>

fun fetch_each ::
  "'w externals \<Rightarrow> JiraFetcher \<Rightarrow> pyval \<Rightarrow> pyval list \<Rightarrow> 'w \<Rightarrow> pyval list \<times> 'w" where
  "fetch_each ext self expand [] w = ([], w)"
| "fetch_each ext self expand (k # ks) w =
     (case get_issue ext self k expand w of
        (doc, w') \<Rightarrow>
          (case fetch_each ext self expand ks w' of (docs, w'') \<Rightarrow> (doc # docs, w'')))"


section \<open>Issues the cleanup and the date parser accept\<close>

text \<open>
  The fields on which no statement of \<open>get_issue\<close> raises, and the dictionary it
  returns for them, written entry by entry.
\<close>

definition text_like :: "pyval \<Rightarrow> bool" where
  "text_like v = (case v of PStr s \<Rightarrow> True | _ \<Rightarrow> \<not> truthy v)"

definition date_ok :: "'w externals \<Rightarrow> pyval \<Rightarrow> bool" where
  "date_ok ext v =
     (case v of
        PStr s \<Rightarrow> (case fromisoformat ext (str_replace ''Z'' ''+00:00'' s) of
                     Inl e \<Rightarrow> False | Inr d \<Rightarrow> True)
      | _ \<Rightarrow> False)"

definition comment_ok :: "'w externals \<Rightarrow> pyval \<Rightarrow> bool" where
  "comment_ok ext c =
     (case c of
        PDict kvs \<Rightarrow>
          text_like (dict_get kvs ''body'' (PStr ''''))
          \<and> date_ok ext (dict_get kvs ''created'' (PStr epoch_default))
          \<and> is_dict (dict_get kvs ''author'' (PDict []))
      | _ \<Rightarrow> False)"

definition comments_of :: "(string \<times> pyval) list \<Rightarrow> pyval list option" where
  "comments_of flds =
     (case dict_get flds ''comment'' PNone of
        PDict ckvs \<Rightarrow>
          (case py_iter (dict_get ckvs ''comments'' (PList [])) of
             Inl e \<Rightarrow> None | Inr cs \<Rightarrow> Some cs)
      | _ \<Rightarrow> Some [])"

definition fields_ok :: "'w externals \<Rightarrow> (string \<times> pyval) list \<Rightarrow> bool" where
  "fields_ok ext flds =
     (text_like (dict_get flds ''description'' (PStr ''''))
      \<and> (case comments_of flds of None \<Rightarrow> False | Some cs \<Rightarrow> list_all (comment_ok ext) cs)
      \<and> date_ok ext (dict_get flds ''created'' (PStr epoch_default))
      \<and> is_dict (dict_get flds ''issuetype'' (PDict []))
      \<and> is_dict (dict_get flds ''status'' (PDict []))
      \<and> is_dict (dict_get flds ''priority'' (PDict []))
      \<and> is_dict (dict_get flds ''assignee'' (PDict []))
      \<and> is_dict (dict_get flds ''reporter'' (PDict [])))"

definition cleaned :: "pyval \<Rightarrow> string" where
  "cleaned v = (case v of PStr s \<Rightarrow> clean_steps s | _ \<Rightarrow> '''')"

definition ymd :: "'w externals \<Rightarrow> pyval \<Rightarrow> string" where
  "ymd ext v =
     (case v of
        PStr s \<Rightarrow> (case fromisoformat ext (str_replace ''Z'' ''+00:00'' s) of
                     Inl e \<Rightarrow> '''' | Inr d \<Rightarrow> strftime_ymd d)
      | _ \<Rightarrow> '''')"

definition sub_entry :: "(string \<times> pyval) list \<Rightarrow> string \<Rightarrow> string \<Rightarrow> pyval \<Rightarrow> pyval" where
  "sub_entry flds k1 k2 dflt =
     (case dict_get flds k1 (PDict []) of PDict kvs \<Rightarrow> dict_get kvs k2 dflt | _ \<Rightarrow> dflt)"

definition comment_entry :: "'w externals \<Rightarrow> pyval \<Rightarrow> pyval" where
  "comment_entry ext c =
     (case c of
        PDict kvs \<Rightarrow>
          PDict [(''body'', PStr (cleaned (dict_get kvs ''body'' (PStr '''')))),
                 (''created'', PStr (ymd ext (dict_get kvs ''created'' (PStr epoch_default)))),
                 (''author'', sub_entry kvs ''author'' ''displayName'' (PStr ''Unknown''))]
      | _ \<Rightarrow> PNone)"

definition issue_view :: "'w externals \<Rightarrow> JiraFetcher \<Rightarrow> pyval \<Rightarrow> (string \<times> pyval) list \<Rightarrow> pyval" where
  "issue_view ext self issue_key flds =
     PDict
       [(''key'', issue_key),
        (''title'', dict_get flds ''summary'' (PStr ''No Summary'')),
        (''type'', sub_entry flds ''issuetype'' ''name'' (PStr ''Unknown'')),
        (''status'', sub_entry flds ''status'' ''name'' (PStr ''Unknown'')),
        (''created'', PStr (ymd ext (dict_get flds ''created'' (PStr epoch_default)))),
        (''priority'', sub_entry flds ''priority'' ''name'' (PStr ''None'')),
        (''description'', PStr (cleaned (dict_get flds ''description'' (PStr '''')))),
        (''assignee'', sub_entry flds ''assignee'' ''displayName'' (PStr ''Unassigned'')),
        (''reporter'', sub_entry flds ''reporter'' ''displayName'' (PStr ''Unknown Reporter'')),
        (''comments'', PList (map (comment_entry ext)
                               (case comments_of flds of None \<Rightarrow> [] | Some cs \<Rightarrow> cs))),
        (''link'', PStr (rstrip_chars ''/'' (server self) @ ''/browse/'' @ py_str issue_key))]"

definition entry :: "pyval \<Rightarrow> string \<Rightarrow> pyval option" where
  "entry v k = (case v of PDict kvs \<Rightarrow> map_of kvs k | _ \<Rightarrow> None)"

definition keys_of :: "pyval \<Rightarrow> string list" where
  "keys_of v = (case v of PDict kvs \<Rightarrow> map fst kvs | _ \<Rightarrow> [])"


section \<open>Sample collaborators\<close>

text \<open>
  A client and a date parser for the examples. The client answers from a fixed table and
  its world is the list of the calls made so far. The parser reads the calendar date at
  the head of a timestamp \<open>YYYY-MM-DD...\<close>.
\<close>

definition digit_of :: "char \<Rightarrow> nat option" where
  "digit_of c = (let n = (of_char c :: nat) in if 48 \<le> n \<and> n \<le> 57 then Some (n - 48) else None)"

fun number_of :: "nat \<Rightarrow> string \<Rightarrow> nat option" where
  "number_of acc [] = Some acc"
| "number_of acc (c # cs) =
     (case digit_of c of None \<Rightarrow> None | Some n \<Rightarrow> number_of (10 * acc + n) cs)"

definition sample_fromisoformat :: "string \<Rightarrow> exn + date" where
  "sample_fromisoformat s =
     (case (number_of 0 (take 4 s), take 1 (drop 4 s), number_of 0 (take 2 (drop 5 s)),
            take 1 (drop 7 s), number_of 0 (take 2 (drop 8 s))) of
        (Some y, ''-'', Some m, ''-'', Some d) \<Rightarrow>
          if 10 \<le> length s then Inr \<lparr>year = y, month = m, day = d\<rparr>
          else Inl (PyExc ''ValueError'' (''Invalid isoformat string: '' @ repr_str s))
      | _ \<Rightarrow> Inl (PyExc ''ValueError'' (''Invalid isoformat string: '' @ repr_str s)))"

definition sample_fields :: "(string \<times> pyval) list" where
  "sample_fields =
     [(''summary'', PStr ''Login fails''),
      (''issuetype'', PDict [(''name'', PStr ''Bug'')]),
      (''status'', PDict [(''name'', PStr ''Open'')]),
      (''created'', PStr ''2024-01-15T10:30:00.000+0000''),
      (''description'', PStr ''{color:red}See{color} [docs|http://x]''),
      (''reporter'', PDict [(''displayName'', PStr ''Ann'')]),
      (''comment'', PDict [(''comments'', PList
         [PDict [(''body'', PStr ''!shot.png! fixed''),
                 (''created'', PStr ''2024-01-16T08:00:00.000Z''),
                 (''author'', PDict [(''displayName'', PStr ''Bob'')])],
          PDict [(''body'', PStr ''ok'')]])])]"

definition sample_issue :: "(string \<times> pyval) list" where
  "sample_issue = [(''id'', PStr ''10001''), (''fields'', PDict sample_fields)]"

definition sample_found :: "(string \<times> pyval) list list" where
  "sample_found = [[(''key'', PStr ''AB-3'')], [(''key'', PStr ''AB-2'')],
                   [(''id'', PStr ''10009'')]]"

definition sample_projects :: "(string \<times> pyval) list list" where
  "sample_projects = [[(''key'', PStr ''AB''), (''name'', PStr ''Alpha''), (''id'', PInt 1)],
                      [(''key'', PStr ''CD'')]]"

definition sample_api :: "jira_client \<Rightarrow> call \<Rightarrow> call list \<Rightarrow> (exn + pyval) \<times> call list" where
  "sample_api cfg c log =
     ((case c of
         IssueCall k x \<Rightarrow>
           if k = PStr ''AB-1'' then Inr (PDict sample_issue)
           else if k = PStr ''AB-2'' then Inl (PyExc ''HTTPError'' ''404 Client Error'')
           else if k = PStr ''AB-3'' then Inr (PDict [(''id'', PStr ''10003'')])
           else if k = PStr ''AB-4'' then Inr (PDict [(''fields'', PList [])])
           else if k = PStr ''AB-5'' then Inr (PDict [])
           else if k = PStr ''AB-6''
             then Inr (PDict [(''fields'', PDict [(''assignee'', PNone)])])
           else Inr PNone
       | JqlCall q f s l x \<Rightarrow>
           Inr (PDict [(''total'', PInt 3), (''issues'', PList (map PDict sample_found))])
       | ProjectsCall \<Rightarrow> Inr (PList (map PDict sample_projects))),
      log @ [c])"

definition failing_api :: "jira_client \<Rightarrow> call \<Rightarrow> call list \<Rightarrow> (exn + pyval) \<times> call list" where
  "failing_api cfg c log = (Inl (PyExc ''ConnectionError'' ''connection refused''), log @ [c])"

definition sample_ext :: "call list externals" where
  "sample_ext = \<lparr>api = sample_api, fromisoformat = sample_fromisoformat\<rparr>"

definition failing_ext :: "call list externals" where
  "failing_ext = \<lparr>api = failing_api, fromisoformat = sample_fromisoformat\<rparr>"

definition sample_fetcher :: JiraFetcher where
  "sample_fetcher = \<lparr>server = ''https://x.atlassian.net/'', email = ''a@b.c'', api_token = ''t0k'',
      jira = \<lparr>url = ''https://x.atlassian.net/'', username = ''a@b.c'', password = ''t0k'',
              cloud = True\<rparr>\<rparr>"

section \<open>Properties of the constructor\<close>

text \<open>
  C10. The constructor raises exactly when one of \<open>JIRA_SITE\<close>, \<open>JIRA_EMAIL\<close>,
  \<open>JIRA_API_TOKEN\<close> is unset or empty, and what it raises is the ValueError; otherwise
  it returns a fetcher whose client was built with those three values as url, username and
  password, and with \<open>cloud=True\<close>.
\<close>

theorem init_raises_iff_missing:
  "((\<exists>e. JiraFetcher_init environ = Inl e) \<longleftrightarrow>
      (unset_or_empty environ ''JIRA_SITE'' \<or> unset_or_empty environ ''JIRA_EMAIL''
       \<or> unset_or_empty environ ''JIRA_API_TOKEN''))
   \<and> (\<forall>e. JiraFetcher_init environ = Inl e \<longrightarrow>
          e = PyExc ''ValueError'' ''Missing required Jira environment variables'')
   \<and> (\<forall>f. JiraFetcher_init environ = Inr f \<longrightarrow>
          environ ''JIRA_SITE'' = Some (url (jira f))
        \<and> environ ''JIRA_EMAIL'' = Some (username (jira f))
        \<and> environ ''JIRA_API_TOKEN'' = Some (password (jira f))
        \<and> cloud (jira f)
        \<and> server f = url (jira f) \<and> email f = username (jira f)
        \<and> api_token f = password (jira f))"
  by (auto simp: JiraFetcher_init_def getenv_def unset_or_empty_def Let_def
           split: option.splits)

text \<open>C10 on an environment with all three variables, and on one without the token.\<close>

theorem init_raises_iff_missing_witness:
  "JiraFetcher_init [''JIRA_SITE'' \<mapsto> ''https://x.atlassian.net'', ''JIRA_EMAIL'' \<mapsto> ''a@b.c'',
                     ''JIRA_API_TOKEN'' \<mapsto> ''t0k'']
     = Inr \<lparr>server = ''https://x.atlassian.net'', email = ''a@b.c'', api_token = ''t0k'',
            jira = \<lparr>url = ''https://x.atlassian.net'', username = ''a@b.c'',
                    password = ''t0k'', cloud = True\<rparr>\<rparr>
   \<and> JiraFetcher_init [''JIRA_SITE'' \<mapsto> ''https://x.atlassian.net'', ''JIRA_EMAIL'' \<mapsto> '''']
     = Inl (PyExc ''ValueError'' ''Missing required Jira environment variables'')"
proof -
  let ?full = "[''JIRA_SITE'' \<mapsto> ''https://x.atlassian.net'', ''JIRA_EMAIL'' \<mapsto> ''a@b.c'',
                ''JIRA_API_TOKEN'' \<mapsto> ''t0k'']"
  let ?part = "[''JIRA_SITE'' \<mapsto> ''https://x.atlassian.net'', ''JIRA_EMAIL'' \<mapsto> '''']"
  have full: "\<not> (unset_or_empty ?full ''JIRA_SITE'' \<or> unset_or_empty ?full ''JIRA_EMAIL''
                 \<or> unset_or_empty ?full ''JIRA_API_TOKEN'')"
    by (simp add: unset_or_empty_def)
  have part: "unset_or_empty ?part ''JIRA_EMAIL''"
    by (simp add: unset_or_empty_def)
  from init_raises_iff_missing [of ?full] full
  obtain f where f: "JiraFetcher_init ?full = Inr f"
    by (cases "JiraFetcher_init ?full") auto
  with init_raises_iff_missing [of ?full]
  have "url (jira f) = ''https://x.atlassian.net'' \<and> username (jira f) = ''a@b.c''
        \<and> password (jira f) = ''t0k'' \<and> cloud (jira f)
        \<and> server f = url (jira f) \<and> email f = username (jira f)
        \<and> api_token f = password (jira f)"
    by simp
  then have "f = \<lparr>server = ''https://x.atlassian.net'', email = ''a@b.c'', api_token = ''t0k'',
            jira = \<lparr>url = ''https://x.atlassian.net'', username = ''a@b.c'',
                    password = ''t0k'', cloud = True\<rparr>\<rparr>"
    by (cases f, cases "jira f") auto
  with f have A: "JiraFetcher_init ?full = Inr \<lparr>server = ''https://x.atlassian.net'',
            email = ''a@b.c'', api_token = ''t0k'',
            jira = \<lparr>url = ''https://x.atlassian.net'', username = ''a@b.c'',
                    password = ''t0k'', cloud = True\<rparr>\<rparr>"
    by simp
  from init_raises_iff_missing [of ?part] part
  have B: "JiraFetcher_init ?part
           = Inl (PyExc ''ValueError'' ''Missing required Jira environment variables'')"
    by blast
  from A B show ?thesis by simp
qed

section \<open>The engine on the five patterns\<close>

lemma keep_False [simp]: "keep False t m = m"
  by (cases m) auto

lemma grow_False [simp]: "grow False x m = m"
  by (cases m) auto

lemma rmatch_lit [simp]:
  "rmatch d (lit c # ps) s =
     (case s of [] \<Rightarrow> None | x # xs \<Rightarrow> if x = c then rmatch d ps xs else None)"
  by (cases s) (auto simp: lit_def)

lemma rmatch_lits:
  "rmatch d (map lit w @ ps) s =
     (case after_prefix w s of None \<Rightarrow> None | Some t \<Rightarrow> rmatch d ps t)"
proof (induction w arbitrary: s)
  case Nil
  show ?case by (simp add: after_prefix_def)
next
  case (Cons c w)
  show ?case
    by (cases s) (auto simp: Cons.IH after_prefix_def)
qed

lemma rmatch_plus_then:
  "rmatch d [Piece False (NotCh c) QPlus, lit c] t =
     (if takeWhile (\<lambda>x. x \<noteq> c) t = [] then None
      else (case dropWhile (\<lambda>x. x \<noteq> c) t of [] \<Rightarrow> None | y # r \<Rightarrow> Some ([], r)))"
proof (induction t)
  case Nil
  show ?case by simp
next
  case (Cons x xs)
  show ?case
    using Cons.IH
    by (cases xs) (auto simp: Let_def split: option.splits if_splits list.splits)
qed

declare rmatch.simps [simp del]
declare rmatch.simps(1) [simp]

lemma rmatch_lits_end:
  "rmatch d (map lit w) s = map_option (Pair []) (after_prefix w s)"
  using rmatch_lits [of d w "[]" s] by (simp split: option.splits)

lemma rmatch_plus_run:
  "rmatch d [Piece False (Ch c) QPlus] t =
     (case t of [] \<Rightarrow> None
      | x # xs \<Rightarrow> if x = c then Some ([], dropWhile (\<lambda>y. y = c) xs) else None)"
proof (induction t)
  case Nil
  show ?case by (simp add: rmatch.simps)
next
  case (Cons x xs)
  show ?case
    using Cons.IH by (cases xs) (auto simp: rmatch.simps split: option.splits)
qed

lemma rmatch_lazy_until:
  "rmatch True (Piece False Dot QLazyStar # map lit w) t = map_option (Pair []) (after_first w t)"
proof (induction t)
  case Nil
  show ?case by (subst rmatch.simps(4)) (simp add: rmatch_lits_end split: option.splits)
next
  case (Cons x xs)
  show ?case
    using Cons.IH by (subst rmatch.simps(4)) (simp add: rmatch_lits_end split: option.splits)
qed

lemma rmatch_lazy_not:
  "c \<noteq> e \<Longrightarrow> rmatch d [Piece False (NotCh c) QLazyStar, lit e] t =
     (case dropWhile (\<lambda>x. x \<noteq> e \<and> x \<noteq> c) t of
        [] \<Rightarrow> None
      | y # r \<Rightarrow> if y = e then Some ([], r) else None)"
proof (induction t)
  case Nil
  show ?case by (subst rmatch.simps(4)) simp
next
  case (Cons x xs)
  then show ?case by (subst rmatch.simps(4)) auto
qed

lemma rmatch_target:
  "rmatch d [Piece False (NotCh CHR '']'') QPlus, lit CHR '']''] u
     = map_option (Pair []) (link_target u)"
proof (cases "dropWhile (\<lambda>c. c \<noteq> CHR '']'') u")
  case Nil
  show ?thesis unfolding rmatch_plus_then link_target_def Nil by simp
next
  case (Cons y r)
  show ?thesis unfolding rmatch_plus_then link_target_def Cons by simp
qed

lemma rmatch_link_scan:
  "rmatch False [Piece True Dot QLazyStar, lit CHR ''|'',
                 Piece False (NotCh CHR '']'') QPlus, lit CHR '']''] t
     = map_option (\<lambda>(d, r). ([d], r)) (link_scan t)"
proof (induction t)
  case Nil
  show ?case
    by (subst rmatch.simps(4)) simp
next
  case (Cons x xs)
  show ?case
    apply (subst rmatch.simps(4))
    apply (cases "link_target xs"; cases "link_scan xs")
       apply (auto simp: rmatch_target Cons.IH)
    done
qed

text \<open>Each pattern against its recogniser.\<close>

lemma map_option_case_list:
  "map_option f (case xs of [] \<Rightarrow> None | y # r \<Rightarrow> h y r)
     = (case xs of [] \<Rightarrow> None | y # r \<Rightarrow> map_option f (h y r))"
  by (cases xs) auto

lemma map_option_if:
  "map_option f (if c then a else b) = (if c then map_option f a else map_option f b)"
  by simp

lemma color_open_re_at:
  "map_option (\<lambda>(gs, r). (expand_template [] gs, r)) (rmatch False color_open_re s) = color_open_at s"
  unfolding color_open_re_def color_open_at_def rmatch_lits rmatch_plus_then
  by (cases "after_prefix ''{color:'' s") (simp_all add: map_option_case_list map_option_if cong: list.case_cong)

lemma code_block_re_at:
  "map_option (\<lambda>(gs, r). (expand_template [] gs, r)) (rmatch True code_block_re s) = code_block_at s"
  unfolding code_block_re_def code_block_at_def rmatch_lits append_Cons append_Nil
    rmatch_lazy_until
  by (cases "after_prefix ''{{'' s") (simp_all add: option.map_comp comp_def)

lemma image_re_at:
  "map_option (\<lambda>(gs, r). (expand_template [] gs, r)) (rmatch False image_re s) = image_at s"
proof (cases s)
  case Nil
  then show ?thesis by (simp add: image_re_def image_at_def)
next
  case (Cons x t)
  have tail: "rmatch False [Piece False (NotCh CHR '']'') QLazyStar, lit CHR ''!''] u =
     (case dropWhile (\<lambda>x. x \<noteq> CHR ''!'' \<and> x \<noteq> CHR '']'') u of
        [] \<Rightarrow> None
      | y # r \<Rightarrow> if y = CHR ''!'' then Some ([], r) else None)" for u
    by (rule rmatch_lazy_not) simp
  have opt: "rmatch False [Piece False (Ch CHR ''['') QOpt,
               Piece False (NotCh CHR '']'') QLazyStar, lit CHR ''!''] t
        = rmatch False [Piece False (NotCh CHR '']'') QLazyStar, lit CHR ''!''] t"
  proof (cases t)
    case Nil
    show ?thesis unfolding Nil by (subst rmatch.simps(3)) (simp add: tail)
  next
    case (Cons y ys)
    have same: "(case m of None \<Rightarrow> None | Some x \<Rightarrow> Some x) = m"
      for m :: "(string list \<times> string) option"
      by (cases m) auto
    show ?thesis
    proof (cases "y = CHR ''[''")
      case True
      show ?thesis unfolding Cons True
        by (subst rmatch.simps(3)) (simp add: tail same cong: option.case_cong)
    next
      case False
      then show ?thesis unfolding Cons
        by (subst rmatch.simps(3)) (simp add: tail)
    qed
  qed
  show ?thesis
    unfolding image_re_def image_at_def Cons
    by (simp add: opt tail map_option_case_list map_option_if cong: list.case_cong if_cong)
qed

lemma link_re_at:
  "map_option (\<lambda>(gs, r). (expand_template [TGroup 1] gs, r)) (rmatch False link_re s) = link_at s"
proof (cases s)
  case Nil
  then show ?thesis by (simp add: link_re_def link_at_def)
next
  case (Cons x t)
  show ?thesis
    unfolding link_re_def link_at_def Cons
    by (cases "link_scan t") (auto simp: rmatch_link_scan)
qed

lemma newlines_re_at:
  "map_option (\<lambda>(gs, r). (expand_template [TLit [CHR 0x0A]] gs, r)) (rmatch False newlines_re s)
     = newline_run_at s"
  by (cases s) (simp_all add: newlines_re_def newline_run_at_def rmatch_plus_run)

section \<open>Every marker is at least one character long\<close>

lemma after_prefix_length:
  "after_prefix w s = Some r \<Longrightarrow> length s = length w + length r"
proof -
  assume a: "after_prefix w s = Some r"
  then have t: "take (length w) s = w" and r: "r = drop (length w) s"
    by (auto simp: after_prefix_def split: if_splits)
  from t have "length (take (length w) s) = length w" by simp
  then have "length w \<le> length s" by simp
  with r show ?thesis by simp
qed

lemma after_first_length:
  "after_first w t = Some r \<Longrightarrow> length r \<le> length t"
proof (induction t)
  case Nil
  then show ?case by (auto dest: after_prefix_length)
next
  case (Cons x xs)
  then show ?case
    by (cases "after_prefix w (x # xs)") (auto dest: after_prefix_length)
qed

lemma dropWhile_Cons_length:
  "dropWhile P t = y # r \<Longrightarrow> length r < length t"
  using length_dropWhile_le [of P t] by simp

lemma color_open_at_adv: "color_open_at s = Some (x, r) \<Longrightarrow> length r < length s"
  by (auto simp: color_open_at_def split: option.splits if_splits list.splits
           dest!: after_prefix_length dropWhile_Cons_length)

lemma color_close_at_adv: "color_close_at s = Some (x, r) \<Longrightarrow> length r < length s"
  by (auto simp: color_close_at_def dest!: after_prefix_length)

lemma code_block_at_adv: "code_block_at s = Some (x, r) \<Longrightarrow> length r < length s"
  by (auto simp: code_block_at_def split: option.splits
           dest!: after_prefix_length after_first_length)

lemma image_at_adv: "image_at s = Some (x, r) \<Longrightarrow> length r < length s"
  by (auto simp: image_at_def split: list.splits if_splits dest!: dropWhile_Cons_length)

lemma link_target_adv: "link_target u = Some r \<Longrightarrow> length r < length u"
  by (auto simp: link_target_def split: if_splits list.splits dest!: dropWhile_Cons_length)

lemma link_scan_adv: "link_scan t = Some (d, r) \<Longrightarrow> length r < length t"
proof (induction t arbitrary: d)
  case Nil
  then show ?case by simp
next
  case (Cons x xs)
  show ?case
  proof (cases "if x = CHR ''|'' then link_target xs else None")
    case (Some r')
    with Cons.prems have "r = r'" by simp
    moreover from Some have "link_target xs = Some r'" by (simp split: if_splits)
    ultimately show ?thesis using link_target_adv [of xs r'] by simp
  next
    case None
    with Cons.prems obtain d' where "link_scan xs = Some (d', r)"
      by (auto split: if_splits)
    with Cons.IH [of d'] show ?thesis by simp
  qed
qed

lemma link_at_adv: "link_at s = Some (x, r) \<Longrightarrow> length r < length s"
  by (auto simp: link_at_def split: list.splits if_splits dest!: link_scan_adv)

lemma newline_run_at_adv: "newline_run_at s = Some (x, r) \<Longrightarrow> length r < length s"
  using length_dropWhile_le [of "\<lambda>c. c = CHR 0x0A" "tl s"]
  by (auto simp: newline_run_at_def split: list.splits if_splits)

text \<open>So the branch of \<open>re_sub\<close> for an empty match is never taken on these patterns.\<close>

lemma patterns_never_match_empty:
  "(rmatch False color_open_re s = Some (gs, r) \<longrightarrow> length r < length s)
   \<and> (rmatch True code_block_re s = Some (gs, r) \<longrightarrow> length r < length s)
   \<and> (rmatch False image_re s = Some (gs, r) \<longrightarrow> length r < length s)
   \<and> (rmatch False link_re s = Some (gs, r) \<longrightarrow> length r < length s)
   \<and> (rmatch False newlines_re s = Some (gs, r) \<longrightarrow> length r < length s)"
proof (intro conjI impI)
  assume "rmatch False color_open_re s = Some (gs, r)"
  with color_open_re_at [of s, symmetric] have "\<exists>x. color_open_at s = Some (x, r)" by auto
  then show "length r < length s" by (blast dest: color_open_at_adv)
next
  assume "rmatch True code_block_re s = Some (gs, r)"
  with code_block_re_at [of s, symmetric] have "\<exists>x. code_block_at s = Some (x, r)" by auto
  then show "length r < length s" by (blast dest: code_block_at_adv)
next
  assume "rmatch False image_re s = Some (gs, r)"
  with image_re_at [of s, symmetric] have "\<exists>x. image_at s = Some (x, r)" by auto
  then show "length r < length s" by (blast dest: image_at_adv)
next
  assume "rmatch False link_re s = Some (gs, r)"
  with link_re_at [of s, symmetric] have "\<exists>x. link_at s = Some (x, r)" by auto
  then show "length r < length s" by (blast dest: link_at_adv)
next
  assume "rmatch False newlines_re s = Some (gs, r)"
  with newlines_re_at [of s, symmetric] have "\<exists>x. newline_run_at s = Some (x, r)" by auto
  then show "length r < length s" by (blast dest: newline_run_at_adv)
qed

section \<open>Substitution against replacement\<close>

lemma re_sub_replace_every:
  assumes m: "\<And>t. map_option (\<lambda>(gs, r). (expand_template repl gs, r)) (rmatch d ps t) = at t"
      and adv: "\<And>t x r. at t = Some (x, r) \<Longrightarrow> length r < length t"
  shows "re_sub d ps repl s = replace_every at s"
proof (induction s rule: length_induct)
  case (1 s)
  show ?case
  proof (cases "rmatch d ps s")
    case None
    with m [of s] have a: "at s = None" by simp
    show ?thesis
    proof (cases s)
      case Nil
      with None a show ?thesis
        by (simp add: re_sub.simps [of d ps repl "[]"] replace_every.simps [of at "[]"])
    next
      case (Cons x xs)
      with 1 have "re_sub d ps repl xs = replace_every at xs" by simp
      with None a Cons show ?thesis
        by (simp add: re_sub.simps [of d ps repl "x # xs"] replace_every.simps [of at "x # xs"])
    qed
  next
    case (Some p)
    obtain gs r where p: "p = (gs, r)" by (cases p)
    with Some m [of s] have a: "at s = Some (expand_template repl gs, r)" by auto
    from adv [OF a] have less: "length r < length s" .
    with 1 have "re_sub d ps repl r = replace_every at r" by simp
    with Some p a less show ?thesis
      by (simp add: re_sub.simps [of d ps repl s] replace_every.simps [of at s])
  qed
qed

lemma str_replace_replace_every:
  assumes w: "w \<noteq> []"
      and at: "\<And>t. at t = map_option (Pair new) (after_prefix w t)"
  shows "str_replace w new s = replace_every at s"
proof (induction s rule: length_induct)
  case (1 s)
  show ?case
  proof (cases "after_prefix w s")
    case None
    then have np: "take (length w) s \<noteq> w"
      by (simp add: after_prefix_def split: if_splits)
    from None at [of s] have a: "at s = None" by simp
    show ?thesis
    proof (cases s)
      case Nil
      with a np w show ?thesis
        by (simp add: str_replace.simps [of w new "[]"] replace_every.simps [of at "[]"])
    next
      case (Cons x xs)
      with 1 have "str_replace w new xs = replace_every at xs" by simp
      with a np w Cons show ?thesis
        by (simp add: str_replace.simps [of w new "x # xs"]
                 replace_every.simps [of at "x # xs"])
    qed
  next
    case (Some r)
    then have p: "take (length w) s = w" and r: "r = drop (length w) s"
      by (auto simp: after_prefix_def split: if_splits)
    from Some at [of s] have a: "at s = Some (new, r)" by simp
    from after_prefix_length [OF Some] w have less: "length r < length s" by simp
    with 1 have "str_replace w new r = replace_every at r" by simp
    with a p r less w show ?thesis
      by (simp add: str_replace.simps [of w new s] replace_every.simps [of at s])
  qed
qed

lemma str_replace_color_close:
  "str_replace ''{color}'' '''' s = replace_every color_close_at s"
  by (rule str_replace_replace_every) (simp_all add: color_close_at_def)

lemma collapse_newlines_run:
  "collapse_newlines (CHR 0x0A # t)
     = CHR 0x0A # collapse_newlines (dropWhile (\<lambda>c. c = CHR 0x0A) t)"
proof (induction t)
  case Nil
  show ?case by simp
next
  case (Cons y ys)
  then show ?case by simp
qed

lemma collapse_newlines_other:
  "x \<noteq> CHR 0x0A \<Longrightarrow> collapse_newlines (x # t) = x # collapse_newlines t"
  by (cases t) auto

lemma replace_every_newlines:
  "replace_every newline_run_at s = collapse_newlines s"
proof (induction s rule: length_induct)
  case (1 s)
  show ?case
  proof (cases s)
    case Nil
    then show ?thesis
      by (simp add: replace_every.simps [of _ "[]"] newline_run_at_def)
  next
    case (Cons x t)
    show ?thesis
    proof (cases "x = CHR 0x0A")
      case True
      let ?r = "dropWhile (\<lambda>c. c = CHR 0x0A) t"
      have a: "newline_run_at s = Some ([CHR 0x0A], ?r)"
        using Cons True by (simp add: newline_run_at_def)
      from newline_run_at_adv [OF a] have less: "length ?r < length s" .
      with 1 have "replace_every newline_run_at ?r = collapse_newlines ?r" by simp
      with a less show ?thesis
        unfolding Cons True
        by (simp add: replace_every.simps [of newline_run_at "CHR 0x0A # t"]
                 collapse_newlines_run)
    next
      case False
      have a: "newline_run_at s = None"
        using Cons False by (simp add: newline_run_at_def)
      from 1 Cons have "replace_every newline_run_at t = collapse_newlines t" by simp
      with a False show ?thesis
        unfolding Cons
        by (simp add: replace_every.simps [of newline_run_at "x # t"]
                 collapse_newlines_other)
    qed
  qed
qed

lemma clean_str_steps: "clean_str s = clean_steps s"
proof -
  have 1: "re_sub False color_open_re [] t = replace_every color_open_at t" for t
    by (rule re_sub_replace_every [OF color_open_re_at color_open_at_adv])
  have 3: "re_sub True code_block_re [] t = replace_every code_block_at t" for t
    by (rule re_sub_replace_every [OF code_block_re_at code_block_at_adv])
  have 4: "re_sub False image_re [] t = replace_every image_at t" for t
    by (rule re_sub_replace_every [OF image_re_at image_at_adv])
  have 5: "re_sub False link_re [TGroup 1] t = replace_every link_at t" for t
    by (rule re_sub_replace_every [OF link_re_at link_at_adv])
  have 6: "re_sub False newlines_re [TLit [CHR 0x0A]] t = collapse_newlines t" for t
    using re_sub_replace_every [OF newlines_re_at newline_run_at_adv]
    by (simp add: replace_every_newlines)
  show ?thesis
    unfolding clean_str_def clean_steps_def Let_def 1 str_replace_color_close 3 4 5 6
    by (rule refl)
qed

section \<open>Properties of the cleanup\<close>

lemma replace_every_no_head:
  assumes hd: "\<And>t x r. at t = Some (x, r) \<Longrightarrow> t \<noteq> [] \<and> hd t = c"
  shows "c \<notin> set s \<Longrightarrow> replace_every at s = s"
proof (induction s)
  case Nil
  have "at [] = None"
    using hd [of "[]"] by (cases "at []") auto
  then show ?case by (simp add: replace_every.simps [of at "[]"])
next
  case (Cons a s)
  have "at (a # s) = None"
    using hd [of "a # s"] Cons.prems by (cases "at (a # s)") auto
  with Cons show ?case by (simp add: replace_every.simps [of at "a # s"])
qed

lemma after_prefix_hd:
  "after_prefix (c # w) t = Some r \<Longrightarrow> t \<noteq> [] \<and> hd t = c"
  by (cases t) (auto simp: after_prefix_def split: if_splits)

lemma color_open_at_hd: "color_open_at t = Some (x, r) \<Longrightarrow> t \<noteq> [] \<and> hd t = CHR ''{''"
  unfolding color_open_at_def
  by (cases "after_prefix ''{color:'' t") (auto dest: after_prefix_hd)

lemma color_close_at_hd: "color_close_at t = Some (x, r) \<Longrightarrow> t \<noteq> [] \<and> hd t = CHR ''{''"
  unfolding color_close_at_def
  by (cases "after_prefix ''{color}'' t") (auto dest: after_prefix_hd)

lemma code_block_at_hd: "code_block_at t = Some (x, r) \<Longrightarrow> t \<noteq> [] \<and> hd t = CHR ''{''"
  unfolding code_block_at_def
  by (cases "after_prefix ''{{'' t") (auto dest: after_prefix_hd)

lemma image_at_hd: "image_at t = Some (x, r) \<Longrightarrow> t \<noteq> [] \<and> hd t = CHR ''!''"
  by (cases t) (auto simp: image_at_def split: if_splits)

lemma link_at_hd: "link_at t = Some (x, r) \<Longrightarrow> t \<noteq> [] \<and> hd t = CHR ''[''"
  by (cases t) (auto simp: link_at_def split: if_splits)

lemma clean_steps_markup_free:
  "markup_free s \<Longrightarrow> clean_steps s = strip (collapse_newlines s)"
  by (simp add: clean_steps_def markup_free_def
        replace_every_no_head [OF color_open_at_hd] replace_every_no_head [OF color_close_at_hd]
        replace_every_no_head [OF code_block_at_hd] replace_every_no_head [OF image_at_hd]
        replace_every_no_head [OF link_at_hd])

lemma collapse_newlines_hd:
  "\<exists>zs. collapse_newlines (y # xs) = y # zs"
proof (induction xs arbitrary: y)
  case Nil
  show ?case by simp
next
  case (Cons x xs)
  then show ?case by auto
qed

lemma nn_free_collapse: "nn_free (collapse_newlines s)"
proof (induction s rule: collapse_newlines.induct)
  case 1
  show ?case by simp
next
  case (2 x)
  show ?case by simp
next
  case (3 x y xs)
  obtain zs where zs: "collapse_newlines (y # xs) = y # zs"
    using collapse_newlines_hd by blast
  with 3 show ?case by auto
qed

lemma collapse_nn_free: "nn_free t \<Longrightarrow> collapse_newlines t = t"
  by (induction t rule: collapse_newlines.induct) auto

lemma nn_free_tl: "nn_free (x # t) \<Longrightarrow> nn_free t"
  by (cases t) auto

lemma nn_free_append: "nn_free (xs @ ys) \<Longrightarrow> nn_free xs \<and> nn_free ys"
proof (induction xs rule: nn_free.induct)
  case 1
  then show ?case by simp
next
  case (2 x)
  then show ?case by (auto dest: nn_free_tl)
next
  case (3 x y xs)
  then show ?case by auto
qed

lemma strip_decompose: "\<exists>pre post. s = pre @ strip s @ post"
proof -
  let ?u = "dropWhile is_space s"
  have "s = takeWhile is_space s @ ?u" by simp
  moreover have "?u = strip s @ rev (takeWhile is_space (rev ?u))"
    by (simp only: strip_def rev_append [symmetric] takeWhile_dropWhile_id rev_rev_ident)
  ultimately have "s = takeWhile is_space s @ strip s @ rev (takeWhile is_space (rev ?u))"
    by simp
  then show ?thesis by blast
qed

lemma nn_free_strip: "nn_free s \<Longrightarrow> nn_free (strip s)"
proof -
  assume a: "nn_free s"
  obtain pre post where "s = pre @ strip s @ post"
    using strip_decompose by blast
  with a have "nn_free (pre @ strip s @ post)" by simp
  then show ?thesis by (blast dest: nn_free_append)
qed

lemma strip_ends:
  "strip s \<noteq> [] \<Longrightarrow> \<not> is_space (hd (strip s)) \<and> \<not> is_space (last (strip s))"
proof -
  let ?u = "dropWhile is_space s"
  let ?w = "dropWhile is_space (rev ?u)"
  assume "strip s \<noteq> []"
  then have w: "?w \<noteq> []" by (simp add: strip_def)
  then have hw: "\<not> is_space (hd ?w)" by (rule hd_dropWhile)
  have u: "?u \<noteq> []"
  proof
    assume e: "?u = []"
    have "?w = []" unfolding e by simp
    with w show False by contradiction
  qed
  then have hu: "\<not> is_space (hd ?u)" by (rule hd_dropWhile)
  have "rev ?u = takeWhile is_space (rev ?u) @ ?w" by simp
  with w have "last (rev ?u) = last ?w" by (metis last_appendR)
  with u have "last ?w = hd ?u" by (simp add: last_rev)
  with w have "hd (rev ?w) = hd ?u" by (simp add: hd_rev)
  moreover from w have "last (rev ?w) = hd ?w" by (simp add: last_rev)
  ultimately show ?thesis using hu hw by (simp add: strip_def)
qed

lemma strip_idem: "strip (strip s) = strip s"
proof (cases "strip s = []")
  case True
  have "strip [] = []" by (simp add: strip_def)
  with True show ?thesis by simp
next
  case False
  let ?v = "strip s"
  from strip_ends [OF False] have h: "\<not> is_space (hd ?v)" and l: "\<not> is_space (last ?v)"
    by auto
  from False h have 1: "dropWhile is_space ?v = ?v"
    by (cases ?v) auto
  from False l have "\<not> is_space (hd (rev ?v))" by (simp add: hd_rev)
  with False have 2: "dropWhile is_space (rev ?v) = rev ?v"
    by (cases "rev ?v") auto
  show ?thesis
    unfolding strip_def [of "strip s"] 1 2 by simp
qed

lemma clean_steps_fixpoint:
  assumes "markup_free (clean_steps s)"
  shows "clean_steps (clean_steps s) = clean_steps s"
proof -
  obtain t where t: "clean_steps s = strip (collapse_newlines t)"
    by (simp add: clean_steps_def)
  have "nn_free (clean_steps s)"
    unfolding t by (rule nn_free_strip) (rule nn_free_collapse)
  then have "collapse_newlines (clean_steps s) = clean_steps s"
    by (rule collapse_nn_free)
  with assms have "clean_steps (clean_steps s) = strip (clean_steps s)"
    by (simp add: clean_steps_markup_free)
  also have "\<dots> = clean_steps s"
    unfolding t by (rule strip_idem)
  finally show ?thesis .
qed

text \<open>
  C1, as stated, fails: with the markers read as any text between their delimiters, the
  image reference \<open>!a]b!\<close>, the colour marker \<open>{color:}\<close> and the link \<open>[a|]\<close>
  would be removed or replaced; the code returns all three unchanged.
\<close>

theorem clean_text_not_as_claimed:
  "clean_text (PStr ''!a]b!'') = Inr ''!a]b!'' \<and> clean_claimed ''!a]b!'' = ''''
   \<and> clean_text (PStr ''{color:}'') = Inr ''{color:}'' \<and> clean_claimed ''{color:}'' = ''''
   \<and> clean_text (PStr ''[a|]'') = Inr ''[a|]'' \<and> clean_claimed ''[a|]'' = ''a''"
  by code_simp

text \<open>
  C1, amended. On a string \<open>_clean_text\<close> does, in this order: remove every
  \<open>{color:X}\<close> with \<open>X\<close> non-empty and free of \<open>}\<close>; remove every \<open>{color}\<close>;
  remove every \<open>{{X}}\<close> with \<open>X\<close> the shortest text, line breaks included; remove every
  \<open>!X!\<close> with \<open>X\<close> free of \<open>!\<close> and \<open>]\<close>; replace every \<open>[display|target]\<close> by
  its display, where the target is non-empty and free of \<open>]\<close> and the display is the
  shortest text without a line break before such a target; collapse every run of newlines
  into one; strip the whitespace at both ends. A falsy argument gives the empty string.
\<close>

theorem clean_text_steps:
  "clean_text (PStr s) = Inr (clean_steps s) \<and> (\<not> truthy v \<longrightarrow> clean_text v = Inr '''')"
proof -
  have "clean_steps [] = []"
    by code_simp
  then show ?thesis
    by (simp add: clean_text_def clean_str_steps)
qed

text \<open>The amended C1 on a text with all five kinds of markers, and on \<open>None\<close>.\<close>

theorem clean_text_steps_witness:
  "clean_text (PStr ''{color:red}Hi{color} see [docs|http://x] !img.png! {{code}}'')
     = Inr ''Hi see docs''
   \<and> clean_text PNone = Inr ''''"
proof -
  have "clean_steps ''{color:red}Hi{color} see [docs|http://x] !img.png! {{code}}''
        = ''Hi see docs''"
    by code_simp
  with clean_text_steps [of "''{color:red}Hi{color} see [docs|http://x] !img.png! {{code}}''" PNone]
  show ?thesis by simp
qed

text \<open>
  C8, as stated, fails: removing \<open>{color}\<close> from \<open>{col{color}or}\<close> leaves a new
  \<open>{color}\<close>, which a second call removes.
\<close>

theorem clean_text_not_idempotent:
  "clean_text (PStr ''{col{color}or}'') = Inr ''{color}''
   \<and> clean_text (PStr ''{color}'') = Inr ''''"
  by code_simp

text \<open>
  C8, amended. Whenever the result of \<open>_clean_text\<close> holds none of the characters
  \<open>{\<close>, \<open>!\<close> and \<open>[\<close>, cleaning it again returns it unchanged.
\<close>

theorem clean_text_idempotent_markup_free:
  "clean_text (PStr s) = Inr r \<Longrightarrow> markup_free r \<Longrightarrow> clean_text (PStr r) = Inr r"
proof -
  assume a: "clean_text (PStr s) = Inr r" and m: "markup_free r"
  have c: "clean_steps [] = []" by code_simp
  from a have r: "r = clean_steps s"
    using c by (simp add: clean_text_def clean_str_steps split: if_splits)
  with m have "clean_steps r = r" using clean_steps_fixpoint [of s] by simp
  then show ?thesis using c by (simp add: clean_text_def clean_str_steps)
qed

text \<open>The amended C8 on a text whose cleaned form has no markup left.\<close>

theorem clean_text_idempotent_markup_free_witness:
  "clean_text (PStr ''{color:red}Hi{color}  '') = Inr ''Hi'' \<and> markup_free ''Hi''
   \<and> clean_text (PStr ''Hi'') = Inr ''Hi''"
proof -
  have a: "clean_text (PStr ''{color:red}Hi{color}  '') = Inr ''Hi''" by code_simp
  have m: "markup_free ''Hi''" by (simp add: markup_free_def)
  from clean_text_idempotent_markup_free [OF a m] a m show ?thesis by simp
qed

section \<open>Properties of the fetch operations\<close>

lemma and_then_Inl [simp]: "and_then (Inl e) f = Inl e"
  by (simp add: and_then_def)

lemma and_then_Inr [simp]: "and_then (Inr x) f = f x"
  by (simp add: and_then_def)

lemma get_issue_api_raises:
  "api ext (jira self) (IssueCall k x) w = (Inl e, w')
     \<Longrightarrow> get_issue ext self k x w = (error_dict k (exc_str e), w')"
  by (simp add: get_issue_def get_issue_try_def)

lemma get_issue_api_returns:
  "api ext (jira self) (IssueCall k x) w = (Inr issue, w')
     \<Longrightarrow> get_issue ext self k x w =
           ((case issue_document ext self k issue of
               Inl e \<Rightarrow> error_dict k (exc_str e) | Inr doc \<Rightarrow> doc), w')"
  by (simp add: get_issue_def get_issue_try_def split: sum.splits)

lemma issue_document_logged [simp]:
  "issue_document (logged ext) self k issue = issue_document ext self k issue"
proof -
  have d: "formatted_date (logged ext) v = formatted_date ext v" for v
    by (simp add: formatted_date_def logged_def)
  have c: "process_comment (logged ext) c = process_comment ext c" for c
    by (simp add: process_comment_def d)
  have cs: "process_comments (logged ext) cs = process_comments ext cs" for cs
    by (induction cs) (simp_all add: c)
  have ext: "process_comments (logged ext) = process_comments ext"
    by (rule ext) (rule cs)
  show ?thesis
    unfolding issue_document_def d ext by (rule refl)
qed

lemma get_issue_logged:
  "get_issue (logged ext) self k x (log, w) =
     (case get_issue ext self k x w of (doc, w') \<Rightarrow> (doc, (log @ [IssueCall k x], w')))"
proof (cases "api ext (jira self) (IssueCall k x) w")
  case (Pair r w')
  then have l: "api (logged ext) (jira self) (IssueCall k x) (log, w)
                  = (r, (log @ [IssueCall k x], w'))"
    by (simp add: logged_def)
  show ?thesis
  proof (cases r)
    case (Inl e)
    with Pair l show ?thesis
      by (simp add: get_issue_api_raises)
  next
    case (Inr issue)
    with Pair l show ?thesis
      by (simp add: get_issue_api_returns)
  qed
qed

lemma get_all_projects_logged:
  "get_all_projects (logged ext) self (log, w) =
     (case get_all_projects ext self w of (ps, w') \<Rightarrow> (ps, (log @ [ProjectsCall], w')))"
  by (cases "api ext (jira self) ProjectsCall w")
     (auto simp: get_all_projects_def get_all_projects_try_def logged_def
           split: sum.splits prod.splits)

text \<open>
  C2. An exception of the client's call, and one raised while the answer is processed,
  ends in the handler of the operation: \<open>get_issue\<close> returns the dictionary of the key
  and \<open>str(e)\<close>, \<open>search_issues\<close> and \<open>get_all_projects\<close> return the empty list. No
  operation repeats its request: \<open>get_issue\<close> and \<open>get_all_projects\<close> make one call
  of the client whatever happens, and \<open>search_issues\<close> whose query raises makes that one
  call only.
\<close>

theorem fetch_catches_exceptions:
  "(api ext (jira self) (IssueCall k x) w = (Inl e, w') \<longrightarrow>
      get_issue ext self k x w = (PDict [(''key'', k), (''error'', PStr (exc_str e))], w'))
   \<and> (get_issue_try ext self k x w = (Inl e, w') \<longrightarrow>
      get_issue ext self k x w = (PDict [(''key'', k), (''error'', PStr (exc_str e))], w'))
   \<and> (api ext (jira self) (JqlCall q f s l x) w = (Inl e, w') \<longrightarrow>
      search_issues ext self q f s l x w = ([], w'))
   \<and> (search_issues_try ext self q f s l x w = (Inl e, w') \<longrightarrow>
      search_issues ext self q f s l x w = ([], w'))
   \<and> (api ext (jira self) ProjectsCall w = (Inl e, w') \<longrightarrow>
      get_all_projects ext self w = ([], w'))
   \<and> (get_all_projects_try ext self w = (Inl e, w') \<longrightarrow>
      get_all_projects ext self w = ([], w'))
   \<and> fst (snd (get_issue (logged ext) self k x ([], w))) = [IssueCall k x]
   \<and> fst (snd (get_all_projects (logged ext) self ([], w))) = [ProjectsCall]
   \<and> (api ext (jira self) (JqlCall q f s l x) w = (Inl e, w') \<longrightarrow>
      fst (snd (search_issues (logged ext) self q f s l x ([], w))) = [JqlCall q f s l x])"
proof -
  have 1: "fst (snd (get_issue (logged ext) self k x ([], w))) = [IssueCall k x]"
    by (simp add: get_issue_logged split: prod.splits)
  have 2: "fst (snd (get_all_projects (logged ext) self ([], w))) = [ProjectsCall]"
    by (simp add: get_all_projects_logged split: prod.splits)
  show ?thesis
    using 1 2
    by (auto simp: get_issue_def get_issue_try_def error_dict_def search_issues_def
          search_issues_try_def get_all_projects_def get_all_projects_try_def logged_def)
qed

text \<open>
  C2 on clients at work: a client that refuses every call, and one that answers
  \<open>AB-2\<close> with an HTTP error.
\<close>

theorem fetch_catches_exceptions_witness:
  "get_issue sample_ext sample_fetcher (PStr ''AB-2'') PNone []
     = (PDict [(''key'', PStr ''AB-2''), (''error'', PStr ''404 Client Error'')],
        [IssueCall (PStr ''AB-2'') PNone])
   \<and> search_issues failing_ext sample_fetcher (PStr ''project = AB'') (PStr ''*all'')
        (PInt 0) (PInt 50) PNone []
     = ([], [JqlCall (PStr ''project = AB'') (PStr ''*all'') (PInt 0) (PInt 50) PNone])
   \<and> get_all_projects failing_ext sample_fetcher [] = ([], [ProjectsCall])"
proof -
  let ?e1 = "PyExc ''HTTPError'' ''404 Client Error''"
  let ?e2 = "PyExc ''ConnectionError'' ''connection refused''"
  let ?q = "JqlCall (PStr ''project = AB'') (PStr ''*all'') (PInt 0) (PInt 50) PNone"
  have a: "api sample_ext (jira sample_fetcher) (IssueCall (PStr ''AB-2'') PNone) []
             = (Inl ?e1, [IssueCall (PStr ''AB-2'') PNone])"
    by (simp add: sample_ext_def sample_api_def)
  have b: "api failing_ext (jira sample_fetcher) ?q [] = (Inl ?e2, [?q])"
    by (simp add: failing_ext_def failing_api_def)
  have c: "api failing_ext (jira sample_fetcher) ProjectsCall [] = (Inl ?e2, [ProjectsCall])"
    by (simp add: failing_ext_def failing_api_def)
  from fetch_catches_exceptions [of sample_ext sample_fetcher "PStr ''AB-2''" PNone "[]" ?e1
        "[IssueCall (PStr ''AB-2'') PNone]"] a
  have 1: "get_issue sample_ext sample_fetcher (PStr ''AB-2'') PNone []
     = (PDict [(''key'', PStr ''AB-2''), (''error'', PStr ''404 Client Error'')],
        [IssueCall (PStr ''AB-2'') PNone])"
    by simp
  from fetch_catches_exceptions [of failing_ext sample_fetcher _ PNone "[]" ?e2 "[?q]"
        "PStr ''project = AB''" "PStr ''*all''" "PInt 0" "PInt 50"] b
  have 2: "search_issues failing_ext sample_fetcher (PStr ''project = AB'') (PStr ''*all'')
        (PInt 0) (PInt 50) PNone [] = ([], [?q])"
    by simp
  from fetch_catches_exceptions [of failing_ext sample_fetcher _ _ "[]" ?e2 "[ProjectsCall]"] c
  have 3: "get_all_projects failing_ext sample_fetcher [] = ([], [ProjectsCall])"
    by simp
  from 1 2 3 show ?thesis by simp
qed

lemma map_of_dict_get: "map_of kvs k = Some v \<Longrightarrow> dict_get kvs k d = v"
  by (simp add: dict_get_def)

lemma map_of_None_dict_get: "map_of kvs k = None \<Longrightarrow> dict_get kvs k d = d"
  by (simp add: dict_get_def)

lemma map_of_Some_key: "map_of kvs k = Some v \<Longrightarrow> k \<in> fst ` set kvs"
  by (metis map_of_eq_None_iff option.distinct(1))

lemma map_of_None_key: "map_of kvs k = None \<Longrightarrow> k \<notin> fst ` set kvs"
  by (simp add: map_of_eq_None_iff)

section \<open>Projects\<close>

lemma project_dicts_map:
  "project_dicts (map PDict kvss) =
     Inr (map (\<lambda>kvs. PDict [(''key'', dict_get kvs ''key'' PNone),
                              (''name'', dict_get kvs ''name'' PNone)]) kvss)"
  by (induction kvss) simp_all

text \<open>
  C7. For the projects the client returns, a non-empty list of dictionaries, the result
  has one dictionary of \<open>key\<close> and \<open>name\<close> per project, in the same order, each entry
  the project's own (\<open>None\<close> where the project has none); a falsy answer gives the empty
  list.
\<close>

theorem get_all_projects_entries:
  "(api ext (jira self) ProjectsCall w = (Inr (PList (map PDict kvss)), w') \<longrightarrow>
      get_all_projects ext self w =
        (map (\<lambda>kvs. PDict [(''key'', dict_get kvs ''key'' PNone),
                            (''name'', dict_get kvs ''name'' PNone)]) kvss, w'))
   \<and> (api ext (jira self) ProjectsCall w = (Inr r, w') \<and> \<not> truthy r \<longrightarrow>
      get_all_projects ext self w = ([], w'))"
  by (cases kvss)
     (auto simp: get_all_projects_def get_all_projects_try_def project_dicts_map)

text \<open>C7 on a client that returns two projects, the second without a name.\<close>

theorem get_all_projects_entries_witness:
  "get_all_projects sample_ext sample_fetcher []
     = ([PDict [(''key'', PStr ''AB''), (''name'', PStr ''Alpha'')],
         PDict [(''key'', PStr ''CD''), (''name'', PNone)]], [ProjectsCall])"
proof -
  have a: "api sample_ext (jira sample_fetcher) ProjectsCall []
     = (Inr (PList (map PDict sample_projects)), [ProjectsCall])"
    by (simp add: sample_ext_def sample_api_def)
  from get_all_projects_entries [of sample_ext sample_fetcher "[]" sample_projects
      "[ProjectsCall]"] a
  show ?thesis by (simp add: dict_get_def sample_projects_def)
qed

section \<open>Type checks of get_issue\<close>

lemma and_then_eq_Inr:
  "and_then m f = Inr y \<longleftrightarrow> (\<exists>x. m = Inr x \<and> f x = Inr y)"
  by (cases m) auto

lemma issue_document_no_comment:
  assumes doc: "issue_document ext self k (PDict kvs) = Inr (PDict d)"
      and fs: "dict_get kvs ''fields'' (PDict []) = PDict fs"
      and nd: "\<not> is_dict (dict_get fs ''comment'' PNone)"
  shows "map_of d ''comments'' = None \<or> map_of d ''comments'' = Some (PList [])"
proof (cases "kvs = []")
  case True
  with doc show ?thesis by (auto simp: issue_document_def error_dict_def)
next
  case False
  with doc fs nd show ?thesis
    unfolding issue_document_def
    by (auto simp: and_then_eq_Inr)
qed

text \<open>
  C3. A falsy answer, or one that is not a dictionary, gives the error "Issue not found
  or missing data"; a \<open>fields\<close> entry that is present and not a dictionary gives "Issue
  missing fields"; and when \<open>fields["comment"]\<close> is not a dictionary, the result holds
  no comment (an empty list, or no \<open>comments\<close> entry at all when it is an error).
\<close>

theorem get_issue_type_checks:
  "(api ext (jira self) (IssueCall k x) w = (Inr issue, w') \<and> (\<not> truthy issue \<or> \<not> is_dict issue)
      \<longrightarrow> get_issue ext self k x w
            = (PDict [(''key'', k), (''error'', PStr ''Issue not found or missing data'')], w'))
   \<and> (api ext (jira self) (IssueCall k x) w = (Inr (PDict kvs), w') \<and> map_of kvs ''fields'' = Some f
        \<and> \<not> is_dict f
      \<longrightarrow> get_issue ext self k x w
            = (PDict [(''key'', k), (''error'', PStr ''Issue missing fields'')], w'))
   \<and> (api ext (jira self) (IssueCall k x) w = (Inr (PDict kvs), w')
        \<and> dict_get kvs ''fields'' (PDict []) = PDict fs
        \<and> \<not> is_dict (dict_get fs ''comment'' PNone)
        \<and> get_issue ext self k x w = (PDict d, w'')
      \<longrightarrow> map_of d ''comments'' = None \<or> map_of d ''comments'' = Some (PList []))"
proof (intro conjI impI)
  assume "api ext (jira self) (IssueCall k x) w = (Inr issue, w') \<and> (\<not> truthy issue \<or> \<not> is_dict issue)"
  then show "get_issue ext self k x w
            = (PDict [(''key'', k), (''error'', PStr ''Issue not found or missing data'')], w')"
    by (auto simp: get_issue_api_returns issue_document_def error_dict_def)
next
  assume a: "api ext (jira self) (IssueCall k x) w = (Inr (PDict kvs), w') \<and> map_of kvs ''fields'' = Some f
        \<and> \<not> is_dict f"
  then have "kvs \<noteq> []" by auto
  with a show "get_issue ext self k x w
            = (PDict [(''key'', k), (''error'', PStr ''Issue missing fields'')], w')"
    by (auto simp: get_issue_api_returns issue_document_def error_dict_def map_of_dict_get)
next
  assume a: "api ext (jira self) (IssueCall k x) w = (Inr (PDict kvs), w')
        \<and> dict_get kvs ''fields'' (PDict []) = PDict fs
        \<and> \<not> is_dict (dict_get fs ''comment'' PNone)
        \<and> get_issue ext self k x w = (PDict d, w'')"
  show "map_of d ''comments'' = None \<or> map_of d ''comments'' = Some (PList [])"
  proof (cases "issue_document ext self k (PDict kvs)")
    case (Inl e)
    with a show ?thesis
      by (auto simp: get_issue_api_returns error_dict_def)
  next
    case (Inr doc)
    with a have "doc = PDict d" by (auto simp: get_issue_api_returns)
    with Inr a show ?thesis
      using issue_document_no_comment [of ext self k kvs d fs] by simp
  qed
qed

section \<open>Searching\<close>

lemma collect_documents_no_error:
  "collect_documents ext self x issues w = (Inr docs, w') \<Longrightarrow> \<forall>d \<in> set docs. \<not> has_key d ''error''"
proof (induction issues arbitrary: w docs w')
  case Nil
  then show ?case by simp
next
  case (Cons issue rest)
  show ?case
  proof (cases "py_get issue ''key'' (PStr ''UNKNOWN'')")
    case (Inl e)
    with Cons.prems show ?thesis by simp
  next
    case (Inr k)
    obtain doc w1 where g: "get_issue ext self k x w = (doc, w1)"
      by (cases "get_issue ext self k x w")
    obtain r w2 where c: "collect_documents ext self x rest w1 = (r, w2)"
      by (cases "collect_documents ext self x rest w1")
    show ?thesis
    proof (cases r)
      case (Inl e)
      with Inr g c Cons.prems show ?thesis by simp
    next
      case (Inr ds)
      with c Cons.IH [of w1 ds w2] have ih: "\<forall>d \<in> set ds. \<not> has_key d ''error''" by simp
      from Cons.prems \<open>py_get issue ''key'' (PStr ''UNKNOWN'') = Inr k\<close> g c Inr
      have "docs = (if \<not> has_key doc ''error'' then doc # ds else ds)" by auto
      with ih show ?thesis by auto
    qed
  qed
qed

lemma collect_documents_dicts:
  "collect_documents ext self x (map PDict iss) w =
     (case fetch_each ext self x (map (\<lambda>i. dict_get i ''key'' (PStr ''UNKNOWN'')) iss) w of
        (docs, w') \<Rightarrow> (Inr (filter (\<lambda>d. \<not> has_key d ''error'') docs), w'))"
proof (induction iss arbitrary: w)
  case Nil
  show ?case by simp
next
  case (Cons i iss)
  show ?case
    by (simp add: Cons.IH split: prod.splits)
qed

lemma collect_documents_logged:
  "\<exists>ks. fst (snd (collect_documents (logged ext) self x issues (log, w)))
          = log @ map (\<lambda>k. IssueCall k x) ks"
proof (induction issues arbitrary: log w)
  case Nil
  have "log = log @ map (\<lambda>k. IssueCall k x) []" by simp
  then show ?case by (simp del: append_Nil2)
next
  case (Cons issue rest)
  show ?case
  proof (cases "py_get issue ''key'' (PStr ''UNKNOWN'')")
    case (Inl e)
    have "log = log @ map (\<lambda>k. IssueCall k x) []" by simp
    with Inl show ?thesis by (simp del: append_Nil2)
  next
    case (Inr k)
    obtain doc w1 where g: "get_issue ext self k x w = (doc, w1)"
      by (cases "get_issue ext self k x w")
    then have lg: "get_issue (logged ext) self k x (log, w) = (doc, (log @ [IssueCall k x], w1))"
      by (simp add: get_issue_logged)
    from Cons.IH [of "log @ [IssueCall k x]" w1]
    obtain ks where ks: "fst (snd (collect_documents (logged ext) self x rest
                                     (log @ [IssueCall k x], w1)))
                           = (log @ [IssueCall k x]) @ map (\<lambda>k. IssueCall k x) ks"
      by blast
    have "fst (snd (collect_documents (logged ext) self x (issue # rest) (log, w)))
            = log @ map (\<lambda>k. IssueCall k x) (k # ks)"
      using Inr lg ks by (auto split: prod.splits sum.splits)
    then show ?thesis by blast
  qed
qed

lemma search_issues_logged:
  "\<exists>ks. fst (snd (search_issues (logged ext) self q f s l x ([], w)))
          = JqlCall q f s l x # map (\<lambda>k. IssueCall k x) ks"
proof -
  let ?c = "JqlCall q f s l x"
  obtain r w1 where a: "api ext (jira self) ?c w = (r, w1)"
    by (cases "api ext (jira self) ?c w")
  then have la: "api (logged ext) (jira self) ?c ([], w) = (r, ([?c], w1))"
    by (simp add: logged_def)
  have stop: "fst (snd (search_issues (logged ext) self q f s l x ([], w))) = [?c]
        \<Longrightarrow> ?thesis"
  proof -
    assume "fst (snd (search_issues (logged ext) self q f s l x ([], w))) = [?c]"
    then have "fst (snd (search_issues (logged ext) self q f s l x ([], w)))
                 = ?c # map (\<lambda>k. IssueCall k x) []" by simp
    then show ?thesis by blast
  qed
  show ?thesis
  proof (cases r)
    case (Inl e)
    with la show ?thesis
      by (intro stop) (simp add: search_issues_def search_issues_try_def)
  next
    case (Inr results)
    show ?thesis
    proof (cases "truthy results \<and> py_contains ''issues'' results = Inr True
                  \<and> (\<exists>issues. and_then (py_get results ''issues'' (PList [])) py_iter = Inr issues)")
      case False
      with la Inr show ?thesis
        by (intro stop)
           (auto simp: search_issues_def search_issues_try_def split: sum.splits)
    next
      case True
      then obtain issues where
        i: "and_then (py_get results ''issues'' (PList [])) py_iter = Inr issues" by blast
      from collect_documents_logged [of ext self x issues "[?c]" w1]
      obtain ks where "fst (snd (collect_documents (logged ext) self x issues ([?c], w1)))
                         = [?c] @ map (\<lambda>k. IssueCall k x) ks" by blast
      with la Inr True i
      have "fst (snd (search_issues (logged ext) self q f s l x ([], w)))
              = ?c # map (\<lambda>k. IssueCall k x) ks"
        by (auto simp: search_issues_def search_issues_try_def split: sum.splits prod.splits)
      then show ?thesis by blast
    qed
  qed
qed

text \<open>
  C6. The client's \<open>jql\<close> call of \<open>search_issues\<close> receives the query, the field list,
  \<open>start\<close>, \<open>limit\<close> and \<open>expand\<close> as they were passed, it is the first call and the only
  query (every later call fetches one issue); \<open>get_project_issues\<close> is
  \<open>search_issues\<close> on the JQL text \<open>project = KEY ORDER BY created DESC\<close> with its own
  \<open>start\<close> and \<open>limit\<close>.
\<close>

theorem search_passes_paging_through:
  "(\<exists>ks. fst (snd (search_issues (logged ext) self q f s l x ([], w)))
           = JqlCall q f s l x # map (\<lambda>k. IssueCall k x) ks)
   \<and> get_project_issues ext self (PStr p) s l w
       = search_issues ext self (PStr (''project = '' @ p @ '' ORDER BY created DESC''))
           (PStr ''*all'') s l PNone w
   \<and> (\<exists>ks. fst (snd (get_project_issues (logged ext) self (PStr p) s l ([], w)))
           = JqlCall (PStr (''project = '' @ p @ '' ORDER BY created DESC'')) (PStr ''*all'')
               s l PNone # map (\<lambda>k. IssueCall k PNone) ks)"
  using search_issues_logged [of ext self q f s l x w]
    search_issues_logged [of ext self "PStr (''project = '' @ p @ '' ORDER BY created DESC'')"
      "PStr ''*all''" s l PNone w]
  by (simp add: get_project_issues_def py_str_def)

text \<open>
  C9. No dictionary of the result has an \<open>error\<close> entry. When the client's answer holds a
  list of issue dictionaries under \<open>issues\<close>, the result is the list of the \<open>get_issue\<close>
  results for their keys (\<open>UNKNOWN\<close> for an issue without key), fetched in order, with
  those that have an \<open>error\<close> entry left out. A falsy answer and a dictionary without
  \<open>issues\<close> give the empty list.
\<close>

theorem search_issues_documents:
  "(\<forall>d \<in> set (fst (search_issues ext self q f s l x w)). \<not> has_key d ''error'')
   \<and> (api ext (jira self) (JqlCall q f s l x) w = (Inr (PDict kvs), w1)
        \<and> map_of kvs ''issues'' = Some (PList (map PDict iss))
      \<longrightarrow> search_issues ext self q f s l x w
            = (filter (\<lambda>d. \<not> has_key d ''error'')
                 (fst (fetch_each ext self x
                         (map (\<lambda>i. dict_get i ''key'' (PStr ''UNKNOWN'')) iss) w1)),
               snd (fetch_each ext self x
                      (map (\<lambda>i. dict_get i ''key'' (PStr ''UNKNOWN'')) iss) w1)))
   \<and> (api ext (jira self) (JqlCall q f s l x) w = (Inr r, w1) \<and> \<not> truthy r
      \<longrightarrow> search_issues ext self q f s l x w = ([], w1))
   \<and> (api ext (jira self) (JqlCall q f s l x) w = (Inr (PDict kvs), w1)
        \<and> map_of kvs ''issues'' = None
      \<longrightarrow> search_issues ext self q f s l x w = ([], w1))"
proof (intro conjI impI)
  show "\<forall>d \<in> set (fst (search_issues ext self q f s l x w)). \<not> has_key d ''error''"
  proof (cases "search_issues_try ext self q f s l x w")
    case (Pair r w')
    show ?thesis
    proof (cases r)
      case (Inl e)
      with Pair show ?thesis by (simp add: search_issues_def)
    next
      case (Inr docs)
      with Pair have t: "search_issues_try ext self q f s l x w = (Inr docs, w')" by simp
      have "\<forall>d \<in> set docs. \<not> has_key d ''error''"
      proof (cases "\<exists>issues w1. collect_documents ext self x issues w1 = (Inr docs, w')")
        case True
        then obtain issues w1 where
          "collect_documents ext self x issues w1 = (Inr docs, w')" by blast
        then show ?thesis by (rule collect_documents_no_error)
      next
        case False
        with t have "docs = []"
          by (auto simp: search_issues_try_def split: prod.splits sum.splits if_splits)
        then show ?thesis by simp
      qed
      with t show ?thesis by (simp add: search_issues_def)
    qed
  qed
next
  assume a: "api ext (jira self) (JqlCall q f s l x) w = (Inr (PDict kvs), w1)
        \<and> map_of kvs ''issues'' = Some (PList (map PDict iss))"
  then have "kvs \<noteq> []" by auto
  with a show "search_issues ext self q f s l x w
            = (filter (\<lambda>d. \<not> has_key d ''error'')
                 (fst (fetch_each ext self x
                         (map (\<lambda>i. dict_get i ''key'' (PStr ''UNKNOWN'')) iss) w1)),
               snd (fetch_each ext self x
                      (map (\<lambda>i. dict_get i ''key'' (PStr ''UNKNOWN'')) iss) w1))"
    by (simp add: search_issues_def search_issues_try_def map_of_Some_key map_of_dict_get
          collect_documents_dicts split: prod.splits)
next
  assume "api ext (jira self) (JqlCall q f s l x) w = (Inr r, w1) \<and> \<not> truthy r"
  then show "search_issues ext self q f s l x w = ([], w1)"
    by (simp add: search_issues_def search_issues_try_def)
next
  assume "api ext (jira self) (JqlCall q f s l x) w = (Inr (PDict kvs), w1)
        \<and> map_of kvs ''issues'' = None"
  then show "search_issues ext self q f s l x w = ([], w1)"
    by (simp add: search_issues_def search_issues_try_def map_of_None_key)
qed

lemma clean_steps_Nil: "clean_steps [] = []"
  by code_simp

lemma clean_text_text_like: "text_like v \<Longrightarrow> clean_text v = Inr (cleaned v)"
  by (cases v) (auto simp: text_like_def clean_text_def cleaned_def clean_str_steps clean_steps_Nil)

lemma formatted_date_ok: "date_ok ext v \<Longrightarrow> formatted_date ext v = Inr (ymd ext v)"
  by (cases v) (auto simp: date_ok_def formatted_date_def ymd_def split: sum.splits)

lemma nested_get_ok:
  "is_dict (dict_get flds k1 (PDict [])) \<Longrightarrow>
     nested_get (PDict flds) k1 k2 dflt = Inr (sub_entry flds k1 k2 dflt)"
  by (cases "dict_get flds k1 (PDict [])") (auto simp: nested_get_def sub_entry_def)

lemma process_comment_ok:
  "comment_ok ext c \<Longrightarrow> process_comment ext c = Inr (comment_entry ext c)"
proof (cases c)
  case (PDict kvs)
  assume "comment_ok ext c"
  with PDict have b: "text_like (dict_get kvs ''body'' (PStr ''''))"
    and d: "date_ok ext (dict_get kvs ''created'' (PStr epoch_default))"
    and a: "is_dict (dict_get kvs ''author'' (PDict []))"
    by (auto simp: comment_ok_def)
  from a obtain akvs where akvs: "dict_get kvs ''author'' (PDict []) = PDict akvs"
    by (cases "dict_get kvs ''author'' (PDict [])") auto
  show ?thesis
    unfolding PDict process_comment_def comment_entry_def
    by (simp add: clean_text_text_like [OF b] formatted_date_ok [OF d] akvs sub_entry_def)
qed (auto simp: comment_ok_def)

lemma process_comments_ok:
  "list_all (comment_ok ext) cs \<Longrightarrow> process_comments ext cs = Inr (map (comment_entry ext) cs)"
  by (induction cs) (simp_all add: process_comment_ok)

lemma comments_step_ok:
  assumes "comments_of flds = Some cs" and "list_all (comment_ok ext) cs"
  shows "(if is_dict (dict_get flds ''comment'' PNone)
          then and_then (py_get (dict_get flds ''comment'' PNone) ''comments'' (PList []))
                 (\<lambda>cs. and_then (py_iter cs) (process_comments ext))
          else Inr []) = Inr (map (comment_entry ext) cs)"
  using assms
  by (cases "dict_get flds ''comment'' PNone")
     (auto simp: comments_of_def process_comments_ok split: sum.splits)

lemma issue_document_ok:
  assumes ne: "kvs \<noteq> []"
      and fs: "dict_get kvs ''fields'' (PDict []) = PDict flds"
      and ok: "fields_ok ext flds"
  shows "issue_document ext self k (PDict kvs) = Inr (issue_view ext self k flds)"
proof -
  from ok obtain cs where cs: "comments_of flds = Some cs" "list_all (comment_ok ext) cs"
    by (auto simp: fields_ok_def split: option.splits)
  from ok have t: "text_like (dict_get flds ''description'' (PStr ''''))"
    and d: "date_ok ext (dict_get flds ''created'' (PStr epoch_default))"
    and n: "is_dict (dict_get flds ''issuetype'' (PDict []))"
           "is_dict (dict_get flds ''status'' (PDict []))"
           "is_dict (dict_get flds ''priority'' (PDict []))"
           "is_dict (dict_get flds ''assignee'' (PDict []))"
           "is_dict (dict_get flds ''reporter'' (PDict []))"
    by (auto simp: fields_ok_def)
  show ?thesis
    unfolding issue_document_def issue_view_def
    using ne
    by (simp add: fs clean_text_text_like [OF t] comments_step_ok [OF cs]
          formatted_date_ok [OF d] nested_get_ok n cs)
qed

lemma nat_str_1: "n < 10 \<Longrightarrow> length (nat_str n) = 1"
  by (subst nat_str.simps) simp

lemma nat_str_2: "10 \<le> n \<Longrightarrow> n < 100 \<Longrightarrow> length (nat_str n) = 2"
  by (subst nat_str.simps) (simp add: nat_str_1)

lemma nat_str_3: "100 \<le> n \<Longrightarrow> n < 1000 \<Longrightarrow> length (nat_str n) = 3"
  by (subst nat_str.simps) (simp add: nat_str_2)

lemma nat_str_4: "1000 \<le> n \<Longrightarrow> n < 10000 \<Longrightarrow> length (nat_str n) = 4"
  by (subst nat_str.simps) (simp add: nat_str_3)

lemma pad2_length: "n < 100 \<Longrightarrow> length (pad2 n) = 2"
  by (cases "n < 10") (simp_all add: pad2_def nat_str_1 nat_str_2)

lemma strftime_ymd_shape:
  assumes "1000 \<le> year d" "year d < 10000" "month d < 100" "day d < 100"
  shows "length (strftime_ymd d) = 10 \<and> strftime_ymd d ! 4 = CHR ''-''
         \<and> strftime_ymd d ! 7 = CHR ''-''"
proof -
  have y: "length (nat_str (year d)) = 4" using assms by (simp add: nat_str_4)
  have m: "length (pad2 (month d)) = 2" using assms by (simp add: pad2_length)
  have dd: "length (pad2 (day d)) = 2" using assms by (simp add: pad2_length)
  show ?thesis
    unfolding strftime_ymd_def
    using y m dd by (simp add: nth_append)
qed

lemma get_issue_ok:
  assumes "api ext (jira self) (IssueCall k x) w = (Inr (PDict kvs), w')"
      and "kvs \<noteq> []"
      and "dict_get kvs ''fields'' (PDict []) = PDict flds"
      and "fields_ok ext flds"
  shows "get_issue ext self k x w = (issue_view ext self k flds, w')"
  using assms by (simp add: get_issue_api_returns issue_document_ok)

lemma comment_entry_keys:
  "comment_ok ext c \<Longrightarrow> keys_of (comment_entry ext c) = [''body'', ''created'', ''author'']"
  by (cases c) (auto simp: comment_ok_def comment_entry_def keys_of_def)

text \<open>
  C4, as stated, fails: the empty dictionary is a dictionary, and so is the default
  taken for its missing \<open>fields\<close>, yet the guard \<open>not issue\<close> answers it with an error;
  and an issue whose \<open>assignee\<close> is \<open>None\<close> ends in the exception handler.
\<close>

theorem get_issue_not_on_every_dict:
  "get_issue sample_ext sample_fetcher (PStr ''AB-5'') PNone []
     = (PDict [(''key'', PStr ''AB-5''), (''error'', PStr ''Issue not found or missing data'')],
        [IssueCall (PStr ''AB-5'') PNone])
   \<and> get_issue sample_ext sample_fetcher (PStr ''AB-6'') PNone []
     = (PDict [(''key'', PStr ''AB-6''),
               (''error'', PStr (quoted ''NoneType'' @ '' object has no attribute ''
                                 @ quoted ''get''))],
        [IssueCall (PStr ''AB-6'') PNone])"
  by code_simp

text \<open>
  C4, amended. For an issue that is a non-empty dictionary, whose fields are a dictionary
  (or missing) in which the description is a string or falsy, \<open>created\<close> is a string
  the date parser accepts, \<open>issuetype\<close>, \<open>status\<close>, \<open>priority\<close>, \<open>assignee\<close> and
  \<open>reporter\<close> are dictionaries or missing, and the comments (if \<open>comment\<close> is a
  dictionary) are dictionaries of the same kind, \<open>get_issue\<close> returns the dictionary with
  exactly the eleven keys: the description cleaned, \<open>created\<close> as the parsed date in
  the form of \<open>%Y-%m-%d\<close> (ten characters for a year of four digits), the comments as
  dictionaries of \<open>body\<close>, \<open>created\<close> and \<open>author\<close> with cleaned bodies, and the link
  made of the server URL without trailing slashes, \<open>/browse/\<close> and the key.
\<close>

theorem get_issue_document:
  "api ext (jira self) (IssueCall k x) w = (Inr (PDict kvs), w') \<and> kvs \<noteq> []
     \<and> dict_get kvs ''fields'' (PDict []) = PDict flds \<and> fields_ok ext flds
   \<longrightarrow>
     get_issue ext self k x w = (issue_view ext self k flds, w')
     \<and> keys_of (issue_view ext self k flds)
         = [''key'', ''title'', ''type'', ''status'', ''created'', ''priority'', ''description'',
            ''assignee'', ''reporter'', ''comments'', ''link'']
     \<and> (\<forall>s. dict_get flds ''description'' (PStr '''') = PStr s \<longrightarrow>
            entry (issue_view ext self k flds) ''description'' = Some (PStr (clean_steps s)))
     \<and> (\<forall>s dt. dict_get flds ''created'' (PStr epoch_default) = PStr s
                \<and> fromisoformat ext (str_replace ''Z'' ''+00:00'' s) = Inr dt \<longrightarrow>
            entry (issue_view ext self k flds) ''created'' = Some (PStr (strftime_ymd dt))
            \<and> (1000 \<le> year dt \<and> year dt < 10000 \<and> month dt < 100 \<and> day dt < 100 \<longrightarrow>
                 length (strftime_ymd dt) = 10 \<and> strftime_ymd dt ! 4 = CHR ''-''
                 \<and> strftime_ymd dt ! 7 = CHR ''-''))
     \<and> (\<forall>cs. comments_of flds = Some cs \<longrightarrow>
            entry (issue_view ext self k flds) ''comments''
              = Some (PList (map (comment_entry ext) cs))
            \<and> (\<forall>c \<in> set cs. keys_of (comment_entry ext c) = [''body'', ''created'', ''author''])
            \<and> (\<forall>ckvs s. PDict ckvs \<in> set cs \<and> dict_get ckvs ''body'' (PStr '''') = PStr s \<longrightarrow>
                  entry (comment_entry ext (PDict ckvs)) ''body'' = Some (PStr (clean_steps s))))
     \<and> (\<forall>ks. k = PStr ks \<longrightarrow>
            entry (issue_view ext self k flds) ''link''
              = Some (PStr (rstrip_chars ''/'' (server self) @ ''/browse/'' @ ks)))"
proof (intro impI)
  assume h: "api ext (jira self) (IssueCall k x) w = (Inr (PDict kvs), w') \<and> kvs \<noteq> []
     \<and> dict_get kvs ''fields'' (PDict []) = PDict flds \<and> fields_ok ext flds"
  then have 1: "get_issue ext self k x w = (issue_view ext self k flds, w')"
    by (simp add: get_issue_ok)
  have 2: "keys_of (issue_view ext self k flds)
         = [''key'', ''title'', ''type'', ''status'', ''created'', ''priority'', ''description'',
            ''assignee'', ''reporter'', ''comments'', ''link'']"
    by (simp add: keys_of_def issue_view_def)
  have 3: "\<forall>s. dict_get flds ''description'' (PStr '''') = PStr s \<longrightarrow>
            entry (issue_view ext self k flds) ''description'' = Some (PStr (clean_steps s))"
    by (simp add: entry_def issue_view_def cleaned_def)
  have 4: "\<forall>s dt. dict_get flds ''created'' (PStr epoch_default) = PStr s
                \<and> fromisoformat ext (str_replace ''Z'' ''+00:00'' s) = Inr dt \<longrightarrow>
            entry (issue_view ext self k flds) ''created'' = Some (PStr (strftime_ymd dt))
            \<and> (1000 \<le> year dt \<and> year dt < 10000 \<and> month dt < 100 \<and> day dt < 100 \<longrightarrow>
                 length (strftime_ymd dt) = 10 \<and> strftime_ymd dt ! 4 = CHR ''-''
                 \<and> strftime_ymd dt ! 7 = CHR ''-'')"
    using strftime_ymd_shape by (simp add: entry_def issue_view_def ymd_def)
  from h have ok: "case comments_of flds of None \<Rightarrow> False | Some cs \<Rightarrow> list_all (comment_ok ext) cs"
    by (simp add: fields_ok_def)
  have 5: "\<forall>cs. comments_of flds = Some cs \<longrightarrow>
            entry (issue_view ext self k flds) ''comments''
              = Some (PList (map (comment_entry ext) cs))
            \<and> (\<forall>c \<in> set cs. keys_of (comment_entry ext c) = [''body'', ''created'', ''author''])
            \<and> (\<forall>ckvs s. PDict ckvs \<in> set cs \<and> dict_get ckvs ''body'' (PStr '''') = PStr s \<longrightarrow>
                  entry (comment_entry ext (PDict ckvs)) ''body'' = Some (PStr (clean_steps s)))"
  proof (intro allI impI conjI)
    fix cs
    assume "comments_of flds = Some cs"
    then show "entry (issue_view ext self k flds) ''comments''
                 = Some (PList (map (comment_entry ext) cs))"
      by (simp add: entry_def issue_view_def)
  next
    fix cs
    assume "comments_of flds = Some cs"
    with ok have "list_all (comment_ok ext) cs" by simp
    then show "\<forall>c \<in> set cs. keys_of (comment_entry ext c) = [''body'', ''created'', ''author'']"
      by (simp add: list_all_iff comment_entry_keys)
  next
    fix cs ckvs s
    assume "PDict ckvs \<in> set cs \<and> dict_get ckvs ''body'' (PStr '''') = PStr s"
    then show "entry (comment_entry ext (PDict ckvs)) ''body'' = Some (PStr (clean_steps s))"
      by (simp add: entry_def comment_entry_def cleaned_def)
  qed
  have 6: "\<forall>ks. k = PStr ks \<longrightarrow>
            entry (issue_view ext self k flds) ''link''
              = Some (PStr (rstrip_chars ''/'' (server self) @ ''/browse/'' @ ks))"
    by (simp add: entry_def issue_view_def py_str_def)
  from 1 2 3 4 5 6
  show "get_issue ext self k x w = (issue_view ext self k flds, w')
     \<and> keys_of (issue_view ext self k flds)
         = [''key'', ''title'', ''type'', ''status'', ''created'', ''priority'', ''description'',
            ''assignee'', ''reporter'', ''comments'', ''link'']
     \<and> (\<forall>s. dict_get flds ''description'' (PStr '''') = PStr s \<longrightarrow>
            entry (issue_view ext self k flds) ''description'' = Some (PStr (clean_steps s)))
     \<and> (\<forall>s dt. dict_get flds ''created'' (PStr epoch_default) = PStr s
                \<and> fromisoformat ext (str_replace ''Z'' ''+00:00'' s) = Inr dt \<longrightarrow>
            entry (issue_view ext self k flds) ''created'' = Some (PStr (strftime_ymd dt))
            \<and> (1000 \<le> year dt \<and> year dt < 10000 \<and> month dt < 100 \<and> day dt < 100 \<longrightarrow>
                 length (strftime_ymd dt) = 10 \<and> strftime_ymd dt ! 4 = CHR ''-''
                 \<and> strftime_ymd dt ! 7 = CHR ''-''))
     \<and> (\<forall>cs. comments_of flds = Some cs \<longrightarrow>
            entry (issue_view ext self k flds) ''comments''
              = Some (PList (map (comment_entry ext) cs))
            \<and> (\<forall>c \<in> set cs. keys_of (comment_entry ext c) = [''body'', ''created'', ''author''])
            \<and> (\<forall>ckvs s. PDict ckvs \<in> set cs \<and> dict_get ckvs ''body'' (PStr '''') = PStr s \<longrightarrow>
                  entry (comment_entry ext (PDict ckvs)) ''body'' = Some (PStr (clean_steps s))))
     \<and> (\<forall>ks. k = PStr ks \<longrightarrow>
            entry (issue_view ext self k flds) ''link''
              = Some (PStr (rstrip_chars ''/'' (server self) @ ''/browse/'' @ ks)))"
    by blast
qed

lemma epoch_default_replace: "str_replace ''Z'' ''+00:00'' epoch_default = epoch_default"
  by code_simp

lemma strftime_epoch: "strftime_ymd \<lparr>year = 1970, month = 1, day = 1\<rparr> = ''1970-01-01''"
  by code_simp

lemma ymd_epoch:
  assumes a: "fromisoformat ext epoch_default = Inr \<lparr>year = 1970, month = 1, day = 1\<rparr>"
  shows "ymd ext (PStr epoch_default) = ''1970-01-01''"
  by (simp only: ymd_def pyval.case epoch_default_replace a sum.case strftime_epoch)

lemma issue_view_entries:
  "entry (issue_view ext self k flds) ''title''
     = Some (dict_get flds ''summary'' (PStr ''No Summary''))"
  "entry (issue_view ext self k flds) ''type''
     = Some (sub_entry flds ''issuetype'' ''name'' (PStr ''Unknown''))"
  "entry (issue_view ext self k flds) ''status''
     = Some (sub_entry flds ''status'' ''name'' (PStr ''Unknown''))"
  "entry (issue_view ext self k flds) ''created''
     = Some (PStr (ymd ext (dict_get flds ''created'' (PStr epoch_default))))"
  "entry (issue_view ext self k flds) ''priority''
     = Some (sub_entry flds ''priority'' ''name'' (PStr ''None''))"
  "entry (issue_view ext self k flds) ''assignee''
     = Some (sub_entry flds ''assignee'' ''displayName'' (PStr ''Unassigned''))"
  "entry (issue_view ext self k flds) ''reporter''
     = Some (sub_entry flds ''reporter'' ''displayName'' (PStr ''Unknown Reporter''))"
  "entry (issue_view ext self k flds) ''comments''
     = Some (PList (map (comment_entry ext)
                      (case comments_of flds of None \<Rightarrow> [] | Some cs \<Rightarrow> cs)))"
  by (simp_all add: entry_def issue_view_def)

text \<open>
  C5, as stated, fails. The empty dictionary is a dictionary, as is the default taken for
  its missing \<open>fields\<close>, and it has no \<open>summary\<close>; the guard \<open>not issue\<close> answers
  it with an error, so that the result has no title at all. The same holds for an issue
  whose fields are a dictionary without \<open>summary\<close> in which \<open>assignee\<close> is \<open>None\<close>:
  the result of the exception handler has the keys \<open>key\<close> and \<open>error\<close> only.
\<close>

theorem get_issue_defaults_not_on_every_dict:
  "api sample_ext (jira sample_fetcher) (IssueCall (PStr ''AB-5'') PNone) []
     = (Inr (PDict []), [IssueCall (PStr ''AB-5'') PNone])
   \<and> entry (fst (get_issue sample_ext sample_fetcher (PStr ''AB-5'') PNone [])) ''title'' = None
   \<and> api sample_ext (jira sample_fetcher) (IssueCall (PStr ''AB-6'') PNone) []
     = (Inr (PDict [(''fields'', PDict [(''assignee'', PNone)])]),
        [IssueCall (PStr ''AB-6'') PNone])
   \<and> map_of [(''assignee'', PNone)] ''summary'' = None
   \<and> entry (fst (get_issue sample_ext sample_fetcher (PStr ''AB-6'') PNone [])) ''title'' = None
   \<and> keys_of (fst (get_issue sample_ext sample_fetcher (PStr ''AB-6'') PNone []))
       = [''key'', ''error'']"
  by code_simp

text \<open>
  C5, amended. For an issue that is a non-empty dictionary and whose fields are as in the
  amended C4 (no statement of \<open>get_issue\<close> raises on them), each missing field gets its
  default: \<open>No Summary\<close> for the title, \<open>Unknown\<close> for type and status, \<open>None\<close> for
  the priority, \<open>Unassigned\<close> and \<open>Unknown Reporter\<close>; a missing \<open>created\<close>, of
  the issue or of a comment, is the epoch literal, which a date parser that reads it as the
  first of January 1970 turns into \<open>1970-01-01\<close>; and a comment without author, or whose
  author has no \<open>displayName\<close>, gets the author \<open>Unknown\<close>.
\<close>

theorem get_issue_defaults:
  "api ext (jira self) (IssueCall k x) w = (Inr (PDict kvs), w') \<and> kvs \<noteq> []
     \<and> dict_get kvs ''fields'' (PDict []) = PDict flds \<and> fields_ok ext flds
   \<longrightarrow>
     (map_of flds ''summary'' = None \<longrightarrow>
        entry (fst (get_issue ext self k x w)) ''title'' = Some (PStr ''No Summary''))
     \<and> (map_of flds ''issuetype'' = None \<longrightarrow>
        entry (fst (get_issue ext self k x w)) ''type'' = Some (PStr ''Unknown''))
     \<and> (map_of flds ''status'' = None \<longrightarrow>
        entry (fst (get_issue ext self k x w)) ''status'' = Some (PStr ''Unknown''))
     \<and> (map_of flds ''priority'' = None \<longrightarrow>
        entry (fst (get_issue ext self k x w)) ''priority'' = Some (PStr ''None''))
     \<and> (map_of flds ''assignee'' = None \<longrightarrow>
        entry (fst (get_issue ext self k x w)) ''assignee'' = Some (PStr ''Unassigned''))
     \<and> (map_of flds ''reporter'' = None \<longrightarrow>
        entry (fst (get_issue ext self k x w)) ''reporter'' = Some (PStr ''Unknown Reporter''))
     \<and> (map_of flds ''created'' = None
          \<and> fromisoformat ext epoch_default = Inr \<lparr>year = 1970, month = 1, day = 1\<rparr> \<longrightarrow>
        entry (fst (get_issue ext self k x w)) ''created'' = Some (PStr ''1970-01-01''))
     \<and> (\<forall>cs. comments_of flds = Some cs \<longrightarrow>
          entry (fst (get_issue ext self k x w)) ''comments''
            = Some (PList (map (comment_entry ext) cs))
          \<and> (\<forall>ckvs. PDict ckvs \<in> set cs \<longrightarrow>
               (map_of ckvs ''created'' = None
                  \<and> fromisoformat ext epoch_default = Inr \<lparr>year = 1970, month = 1, day = 1\<rparr> \<longrightarrow>
                entry (comment_entry ext (PDict ckvs)) ''created'' = Some (PStr ''1970-01-01''))
             \<and> (map_of ckvs ''author'' = None \<longrightarrow>
                entry (comment_entry ext (PDict ckvs)) ''author'' = Some (PStr ''Unknown''))
             \<and> (\<forall>a. map_of ckvs ''author'' = Some (PDict a) \<and> map_of a ''displayName'' = None \<longrightarrow>
                entry (comment_entry ext (PDict ckvs)) ''author'' = Some (PStr ''Unknown''))))"
proof (intro impI)
  assume h: "api ext (jira self) (IssueCall k x) w = (Inr (PDict kvs), w') \<and> kvs \<noteq> []
     \<and> dict_get kvs ''fields'' (PDict []) = PDict flds \<and> fields_ok ext flds"
  then have g: "fst (get_issue ext self k x w) = issue_view ext self k flds"
    by (simp add: get_issue_ok)
  have top: "map_of flds a = None \<Longrightarrow> sub_entry flds a b d = d" for a b d
    by (simp add: sub_entry_def map_of_None_dict_get)
  have c1: "map_of ckvs ''created'' = None
              \<and> fromisoformat ext epoch_default = Inr \<lparr>year = 1970, month = 1, day = 1\<rparr> \<longrightarrow>
            entry (comment_entry ext (PDict ckvs)) ''created'' = Some (PStr ''1970-01-01'')"
    for ckvs
    by (simp add: entry_def comment_entry_def map_of_None_dict_get ymd_epoch)
  have c2: "map_of ckvs ''author'' = None \<longrightarrow>
            entry (comment_entry ext (PDict ckvs)) ''author'' = Some (PStr ''Unknown'')" for ckvs
    by (simp add: entry_def comment_entry_def sub_entry_def map_of_None_dict_get)
  have c3: "\<forall>a. map_of ckvs ''author'' = Some (PDict a) \<and> map_of a ''displayName'' = None \<longrightarrow>
            entry (comment_entry ext (PDict ckvs)) ''author'' = Some (PStr ''Unknown'')" for ckvs
    by (simp add: entry_def comment_entry_def sub_entry_def map_of_None_dict_get
          map_of_dict_get)
  show "(map_of flds ''summary'' = None \<longrightarrow>
        entry (fst (get_issue ext self k x w)) ''title'' = Some (PStr ''No Summary''))
     \<and> (map_of flds ''issuetype'' = None \<longrightarrow>
        entry (fst (get_issue ext self k x w)) ''type'' = Some (PStr ''Unknown''))
     \<and> (map_of flds ''status'' = None \<longrightarrow>
        entry (fst (get_issue ext self k x w)) ''status'' = Some (PStr ''Unknown''))
     \<and> (map_of flds ''priority'' = None \<longrightarrow>
        entry (fst (get_issue ext self k x w)) ''priority'' = Some (PStr ''None''))
     \<and> (map_of flds ''assignee'' = None \<longrightarrow>
        entry (fst (get_issue ext self k x w)) ''assignee'' = Some (PStr ''Unassigned''))
     \<and> (map_of flds ''reporter'' = None \<longrightarrow>
        entry (fst (get_issue ext self k x w)) ''reporter'' = Some (PStr ''Unknown Reporter''))
     \<and> (map_of flds ''created'' = None
          \<and> fromisoformat ext epoch_default = Inr \<lparr>year = 1970, month = 1, day = 1\<rparr> \<longrightarrow>
        entry (fst (get_issue ext self k x w)) ''created'' = Some (PStr ''1970-01-01''))
     \<and> (\<forall>cs. comments_of flds = Some cs \<longrightarrow>
          entry (fst (get_issue ext self k x w)) ''comments''
            = Some (PList (map (comment_entry ext) cs))
          \<and> (\<forall>ckvs. PDict ckvs \<in> set cs \<longrightarrow>
               (map_of ckvs ''created'' = None
                  \<and> fromisoformat ext epoch_default = Inr \<lparr>year = 1970, month = 1, day = 1\<rparr> \<longrightarrow>
                entry (comment_entry ext (PDict ckvs)) ''created'' = Some (PStr ''1970-01-01''))
             \<and> (map_of ckvs ''author'' = None \<longrightarrow>
                entry (comment_entry ext (PDict ckvs)) ''author'' = Some (PStr ''Unknown''))
             \<and> (\<forall>a. map_of ckvs ''author'' = Some (PDict a) \<and> map_of a ''displayName'' = None \<longrightarrow>
                entry (comment_entry ext (PDict ckvs)) ''author'' = Some (PStr ''Unknown''))))"
    unfolding g
    using c1 c2 c3
    by (simp add: issue_view_entries top map_of_None_dict_get ymd_epoch)
qed

lemma sample_issue_call:
  "api sample_ext (jira sample_fetcher) (IssueCall (PStr ''AB-1'') PNone) []
     = (Inr (PDict sample_issue), [IssueCall (PStr ''AB-1'') PNone])"
  by (simp add: sample_ext_def sample_api_def)

lemma sample_fields_ok: "fields_ok sample_ext sample_fields"
  by code_simp

lemma sample_issue_fields: "dict_get sample_issue ''fields'' (PDict []) = PDict sample_fields"
  by (simp add: sample_issue_def dict_get_def)

lemma sample_epoch:
  "fromisoformat sample_ext epoch_default = Inr \<lparr>year = 1970, month = 1, day = 1\<rparr>"
  by code_simp

text \<open>C3 on an answer that is \<open>None\<close>, on fields that are a list, and on an issue without comments.\<close>

theorem get_issue_type_checks_witness:
  "get_issue sample_ext sample_fetcher (PStr ''ZZ-9'') PNone []
     = (PDict [(''key'', PStr ''ZZ-9''), (''error'', PStr ''Issue not found or missing data'')],
        [IssueCall (PStr ''ZZ-9'') PNone])
   \<and> get_issue sample_ext sample_fetcher (PStr ''AB-4'') PNone []
     = (PDict [(''key'', PStr ''AB-4''), (''error'', PStr ''Issue missing fields'')],
        [IssueCall (PStr ''AB-4'') PNone])
   \<and> entry (fst (get_issue sample_ext sample_fetcher (PStr ''AB-3'') PNone [])) ''comments''
     = Some (PList [])"
proof -
  have a: "api sample_ext (jira sample_fetcher) (IssueCall (PStr ''ZZ-9'') PNone) []
             = (Inr PNone, [IssueCall (PStr ''ZZ-9'') PNone])"
    by (simp add: sample_ext_def sample_api_def)
  have b: "api sample_ext (jira sample_fetcher) (IssueCall (PStr ''AB-4'') PNone) []
             = (Inr (PDict [(''fields'', PList [])]), [IssueCall (PStr ''AB-4'') PNone])"
    by (simp add: sample_ext_def sample_api_def)
  have c: "api sample_ext (jira sample_fetcher) (IssueCall (PStr ''AB-3'') PNone) []
             = (Inr (PDict [(''id'', PStr ''10003'')]), [IssueCall (PStr ''AB-3'') PNone])"
    by (simp add: sample_ext_def sample_api_def)
  let ?d = "[(''key'', PStr ''AB-3''), (''title'', PStr ''No Summary''),
           (''type'', PStr ''Unknown''), (''status'', PStr ''Unknown''),
           (''created'', PStr ''1970-01-01''), (''priority'', PStr ''None''),
           (''description'', PStr []), (''assignee'', PStr ''Unassigned''),
           (''reporter'', PStr ''Unknown Reporter''), (''comments'', PList []),
           (''link'', PStr ''https://x.atlassian.net/browse/AB-3'')]"
  have g: "get_issue sample_ext sample_fetcher (PStr ''AB-3'') PNone []
             = (PDict ?d, [IssueCall (PStr ''AB-3'') PNone])"
    by code_simp
  from get_issue_type_checks [of sample_ext sample_fetcher "PStr ''ZZ-9''" PNone "[]" PNone
        "[IssueCall (PStr ''ZZ-9'') PNone]"] a
  have 1: "get_issue sample_ext sample_fetcher (PStr ''ZZ-9'') PNone []
     = (PDict [(''key'', PStr ''ZZ-9''), (''error'', PStr ''Issue not found or missing data'')],
        [IssueCall (PStr ''ZZ-9'') PNone])"
    by simp
  from get_issue_type_checks [of sample_ext sample_fetcher "PStr ''AB-4''" PNone "[]" _
        "[IssueCall (PStr ''AB-4'') PNone]" "[(''fields'', PList [])]" "PList []"] b
  have 2: "get_issue sample_ext sample_fetcher (PStr ''AB-4'') PNone []
     = (PDict [(''key'', PStr ''AB-4''), (''error'', PStr ''Issue missing fields'')],
        [IssueCall (PStr ''AB-4'') PNone])"
    by simp
  from get_issue_type_checks [of sample_ext sample_fetcher "PStr ''AB-3''" PNone "[]" _
        "[IssueCall (PStr ''AB-3'') PNone]" "[(''id'', PStr ''10003'')]" _ "[]" ?d
        "[IssueCall (PStr ''AB-3'') PNone]"] c g
  have 3: "map_of ?d ''comments'' = Some (PList [])"
    by (simp add: dict_get_def)
  from 1 2 3 g show ?thesis by (simp add: entry_def)
qed

text \<open>The amended C4 on an issue with markup in its description and two comments.\<close>

theorem get_issue_document_witness:
  "get_issue sample_ext sample_fetcher (PStr ''AB-1'') PNone []
     = (PDict
          [(''key'', PStr ''AB-1''), (''title'', PStr ''Login fails''),
           (''type'', PStr ''Bug''), (''status'', PStr ''Open''),
           (''created'', PStr ''2024-01-15''), (''priority'', PStr ''None''),
           (''description'', PStr ''See docs''),
           (''assignee'', PStr ''Unassigned''), (''reporter'', PStr ''Ann''),
           (''comments'',
            PList
             [PDict [(''body'', PStr ''fixed''), (''created'', PStr ''2024-01-16''),
                     (''author'', PStr ''Bob'')],
              PDict [(''body'', PStr ''ok''), (''created'', PStr ''1970-01-01''),
                     (''author'', PStr ''Unknown'')]]),
           (''link'', PStr ''https://x.atlassian.net/browse/AB-1'')],
        [IssueCall (PStr ''AB-1'') PNone])"
proof -
  have ne: "sample_issue \<noteq> []" by (simp add: sample_issue_def)
  have v: "issue_view sample_ext sample_fetcher (PStr ''AB-1'') sample_fields
     = PDict
          [(''key'', PStr ''AB-1''), (''title'', PStr ''Login fails''),
           (''type'', PStr ''Bug''), (''status'', PStr ''Open''),
           (''created'', PStr ''2024-01-15''), (''priority'', PStr ''None''),
           (''description'', PStr ''See docs''),
           (''assignee'', PStr ''Unassigned''), (''reporter'', PStr ''Ann''),
           (''comments'',
            PList
             [PDict [(''body'', PStr ''fixed''), (''created'', PStr ''2024-01-16''),
                     (''author'', PStr ''Bob'')],
              PDict [(''body'', PStr ''ok''), (''created'', PStr ''1970-01-01''),
                     (''author'', PStr ''Unknown'')]]),
           (''link'', PStr ''https://x.atlassian.net/browse/AB-1'')]"
    by code_simp
  from get_issue_document [of sample_ext sample_fetcher "PStr ''AB-1''" PNone "[]" sample_issue
      "[IssueCall (PStr ''AB-1'') PNone]" sample_fields]
    sample_issue_call ne sample_issue_fields sample_fields_ok
  have "get_issue sample_ext sample_fetcher (PStr ''AB-1'') PNone []
          = (issue_view sample_ext sample_fetcher (PStr ''AB-1'') sample_fields,
             [IssueCall (PStr ''AB-1'') PNone])"
    by blast
  with v show ?thesis by simp
qed

text \<open>C5 on an issue without assignee and priority, whose second comment has only a body.\<close>

theorem get_issue_defaults_witness:
  "entry (fst (get_issue sample_ext sample_fetcher (PStr ''AB-1'') PNone [])) ''priority''
     = Some (PStr ''None'')
   \<and> entry (fst (get_issue sample_ext sample_fetcher (PStr ''AB-1'') PNone [])) ''assignee''
     = Some (PStr ''Unassigned'')
   \<and> entry (comment_entry sample_ext (PDict [(''body'', PStr ''ok'')])) ''created''
     = Some (PStr ''1970-01-01'')
   \<and> entry (comment_entry sample_ext (PDict [(''body'', PStr ''ok'')])) ''author''
     = Some (PStr ''Unknown'')"
proof -
  have ne: "sample_issue \<noteq> []" by (simp add: sample_issue_def)
  have p: "map_of sample_fields ''priority'' = None" by (simp add: sample_fields_def)
  have a: "map_of sample_fields ''assignee'' = None" by (simp add: sample_fields_def)
  have cs: "comments_of sample_fields = Some
         [PDict [(''body'', PStr ''!shot.png! fixed''),
                 (''created'', PStr ''2024-01-16T08:00:00.000Z''),
                 (''author'', PDict [(''displayName'', PStr ''Bob'')])],
          PDict [(''body'', PStr ''ok'')]]"
    by (simp add: comments_of_def sample_fields_def dict_get_def)
  have c1: "map_of [(''body'', PStr ''ok'')] ''created'' = None" by simp
  have c2: "map_of [(''body'', PStr ''ok'')] ''author'' = None" by simp
  from get_issue_defaults [of sample_ext sample_fetcher "PStr ''AB-1''" PNone "[]" sample_issue
      "[IssueCall (PStr ''AB-1'') PNone]" sample_fields]
    sample_issue_call ne sample_issue_fields sample_fields_ok p a cs c1 c2 sample_epoch
  show ?thesis by simp
qed

text \<open>C6 on a search from offset 10 with limit 20, and on the issues of project \<open>AB\<close>.\<close>

theorem search_passes_paging_through_witness:
  "fst (snd (search_issues (logged sample_ext) sample_fetcher (PStr ''assignee = me'')
               (PStr ''summary'') (PInt 10) (PInt 20) PNone ([], [])))
     = [JqlCall (PStr ''assignee = me'') (PStr ''summary'') (PInt 10) (PInt 20) PNone,
        IssueCall (PStr ''AB-3'') PNone, IssueCall (PStr ''AB-2'') PNone,
        IssueCall (PStr ''UNKNOWN'') PNone]
   \<and> get_project_issues sample_ext sample_fetcher (PStr ''AB'') (PInt 10) (PInt 20) []
     = search_issues sample_ext sample_fetcher (PStr ''project = AB ORDER BY created DESC'')
         (PStr ''*all'') (PInt 10) (PInt 20) PNone []"
proof -
  have 1: "fst (snd (search_issues (logged sample_ext) sample_fetcher (PStr ''assignee = me'')
               (PStr ''summary'') (PInt 10) (PInt 20) PNone ([], [])))
     = [JqlCall (PStr ''assignee = me'') (PStr ''summary'') (PInt 10) (PInt 20) PNone,
        IssueCall (PStr ''AB-3'') PNone, IssueCall (PStr ''AB-2'') PNone,
        IssueCall (PStr ''UNKNOWN'') PNone]"
    by code_simp
  from search_passes_paging_through [of sample_ext sample_fetcher _ _ "PInt 10" "PInt 20" _ "[]"
      "''AB''"] 1
  show ?thesis by simp
qed

text \<open>C9 on a search that finds three issues, one of them refused and one without key.\<close>

theorem search_issues_documents_witness:
  "map (\<lambda>d. entry d ''key'')
     (fst (search_issues sample_ext sample_fetcher (PStr ''assignee = me'') (PStr ''*all'')
             (PInt 0) (PInt 50) PNone []))
     = [Some (PStr ''AB-3'')]
   \<and> map (\<lambda>d. (entry d ''key'', has_key d ''error''))
       (fst (fetch_each sample_ext sample_fetcher PNone
               (map (\<lambda>i. dict_get i ''key'' (PStr ''UNKNOWN'')) sample_found)
               [JqlCall (PStr ''assignee = me'') (PStr ''*all'') (PInt 0) (PInt 50) PNone]))
     = [(Some (PStr ''AB-3''), False), (Some (PStr ''AB-2''), True),
        (Some (PStr ''UNKNOWN''), True)]"
proof -
  let ?q = "JqlCall (PStr ''assignee = me'') (PStr ''*all'') (PInt 0) (PInt 50) PNone"
  let ?kvs = "[(''total'', PInt 3), (''issues'', PList (map PDict sample_found))]"
  have a: "api sample_ext (jira sample_fetcher) ?q [] = (Inr (PDict ?kvs), [?q])"
    by (simp add: sample_ext_def sample_api_def)
  have i: "map_of ?kvs ''issues'' = Some (PList (map PDict sample_found))" by simp
  have f: "map (\<lambda>d. (entry d ''key'', has_key d ''error''))
       (fst (fetch_each sample_ext sample_fetcher PNone
               (map (\<lambda>i. dict_get i ''key'' (PStr ''UNKNOWN'')) sample_found) [?q]))
     = [(Some (PStr ''AB-3''), False), (Some (PStr ''AB-2''), True),
        (Some (PStr ''UNKNOWN''), True)]"
    by code_simp
  have k: "map (\<lambda>d. entry d ''key'')
       (filter (\<lambda>d. \<not> has_key d ''error'')
         (fst (fetch_each sample_ext sample_fetcher PNone
               (map (\<lambda>i. dict_get i ''key'' (PStr ''UNKNOWN'')) sample_found) [?q])))
     = [Some (PStr ''AB-3'')]"
    by code_simp
  from search_issues_documents [of sample_ext sample_fetcher "PStr ''assignee = me''"
      "PStr ''*all''" "PInt 0" "PInt 50" PNone "[]" ?kvs "[?q]" sample_found] a i
  have "search_issues sample_ext sample_fetcher (PStr ''assignee = me'') (PStr ''*all'')
             (PInt 0) (PInt 50) PNone []
     = (filter (\<lambda>d. \<not> has_key d ''error'')
         (fst (fetch_each sample_ext sample_fetcher PNone
               (map (\<lambda>i. dict_get i ''key'' (PStr ''UNKNOWN'')) sample_found) [?q])),
        snd (fetch_each sample_ext sample_fetcher PNone
               (map (\<lambda>i. dict_get i ''key'' (PStr ''UNKNOWN'')) sample_found) [?q]))"
    by blast
  with f k show ?thesis by simp
qed

end
